theory Spec2Isabelle
  imports Complex_Main "HOL-Library.List_Lexorder" "HOL-Library.AList"
begin

section \<open>Python values used by the scripts\<close>

text \<open>
  A Python \<open>str\<close> is a sequence of Unicode code points, so it is modelled as a list of
  integers (what \<open>ord\<close> gives). \<open>u\<close> turns an ASCII literal of the source into that representation; literals
  with CJK text or emoji are written as their code points, with the source text in a
  comment. Python \<open>float\<close>s (sizes in MB, durations, clock readings) are modelled by exact
  rationals; no property below depends on their rounding.
\<close>

type_synonym pystr = "int list"

definition u :: "string \<Rightarrow> pystr" where
  "u s = map of_char s"

text \<open>\<open>int(x)\<close> on a float truncates towards zero.\<close>

definition py_int_of_float :: "rat \<Rightarrow> int" where
  "py_int_of_float x = (if 0 \<le> x then \<lfloor>x\<rfloor> else \<lceil>x\<rceil>)"

text \<open>\<open>round(x, 1)\<close>: nearest multiple of one tenth, ties to the even one.\<close>

definition round_half_even :: "rat \<Rightarrow> int" where
  "round_half_even x =
     (let f = \<lfloor>x\<rfloor>; d = x - of_int f in
      if d < 1/2 then f else if 1/2 < d then f + 1 else if even f then f else f + 1)"

definition round1 :: "rat \<Rightarrow> rat" where
  "round1 x = of_int (round_half_even (x * 10)) / 10"

text \<open>Decimal rendering of integers, as an f-string \<open>{n}\<close> produces it.\<close>

fun show_nat :: "nat \<Rightarrow> pystr" where
  "show_nat n = (if n < 10 then [48 + int n] else show_nat (n div 10) @ [48 + int (n mod 10)])"

declare show_nat.simps [simp del]

definition show_int :: "int \<Rightarrow> pystr" where
  "show_int i = (if i < 0 then 45 # show_nat (nat (- i)) else show_nat (nat i))"

section \<open>progress.py: the progress state and its status document\<close>

record stage_info =
  stage_order :: nat
  label :: pystr
  progress :: int

text \<open>The table \<open>STAGES\<close>; the labels are the code points of the source's display texts.\<close>

definition STAGES :: "(pystr \<times> stage_info) list" where
  "STAGES =
    [(u ''idle'', \<lparr>stage_order = 0,
        label = [9208, 32, 32, 31354, 38386, 24453, 26426], progress = 0\<rparr>),
     (u ''waiting'', \<lparr>stage_order = 1,
        label = [128640, 32, 20934, 22791, 24320, 22987], progress = 5\<rparr>),
     (u ''extract'', \<lparr>stage_order = 2,
        label = [127925, 32, 25552, 21462, 38899, 39057, 32, 40, 49, 47, 52, 41], progress = 15\<rparr>),
     (u ''detect'', \<lparr>stage_order = 3,
        label = [127760, 32, 26816, 27979, 35821, 35328, 32, 40, 50, 47, 52, 41], progress = 25\<rparr>),
     (u ''transcribe'', \<lparr>stage_order = 4,
        label = [128221, 32, 36716, 24405, 20013, 32, 40, 51, 47, 52, 41], progress = 40\<rparr>),
     (u ''save'', \<lparr>stage_order = 5,
        label = [128190, 32, 20445, 23384, 25991, 20214, 32, 40, 52, 47, 52, 41], progress = 90\<rparr>),
     (u ''done'', \<lparr>stage_order = 6,
        label = [9989, 32, 36716, 24405, 23436, 25104], progress = 100\<rparr>),
     (u ''failed'', \<lparr>stage_order = 6,
        label = [10060, 32, 36716, 24405, 22833, 36133], progress = 100\<rparr>)]"

text \<open>\<open>STAGES.get(stage, STAGES["idle"])\<close>.\<close>

definition stage_info_of :: "pystr \<Rightarrow> stage_info" where
  "stage_info_of stage =
     (case map_of STAGES stage of
        Some info \<Rightarrow> info
      | None \<Rightarrow> the (map_of STAGES (u ''idle'')))"

record queue_item =
  q_filename :: pystr
  q_filesize_mb :: rat
  q_queued_at :: pystr

text \<open>
  A history entry is a dict; the keys \<open>lang\<close> (success only) and \<open>error\<close> (failure only)
  may be absent, which is \<open>None\<close> here.
\<close>

record history_entry =
  h_time :: pystr
  h_file :: pystr
  h_result :: pystr
  h_lang :: "pystr option"
  h_error :: "pystr option"
  h_elapsed :: pystr

text \<open>The document that \<open>_write_status\<close> serialises.\<close>

record status =
  st_timestamp :: pystr
  st_state :: pystr
  st_state_label :: pystr
  st_progress :: int
  st_filename :: pystr
  st_filesize_mb :: rat
  st_duration_sec :: rat
  st_elapsed :: pystr
  st_elapsed_sec :: rat
  st_detail :: pystr
  st_transcribe_percent :: int
  st_error :: pystr
  st_total_completed :: int
  st_total_failed :: int
  st_queue :: "queue_item list"
  st_queue_position :: int
  st_history :: "history_entry list"

text \<open>
  The fields of \<open>ProgressManager\<close>. \<open>status_file\<close> is the effect of \<open>_write_status\<close>: the
  documents handed to \<open>STATUS_FILE.write_text\<close>, oldest first (a failing write is logged
  and swallowed by the source).
\<close>

record progress_manager =
  start_time :: "rat option"
  filename :: pystr
  filesize_mb :: rat
  duration_sec :: rat
  current_stage :: pystr
  detail :: pystr
  transcribe_percent :: int
  error :: pystr
  history :: "history_entry list"
  total_completed :: int
  total_failed :: int
  queue :: "queue_item list"
  status_file :: "status list"

text \<open>
  One reading of the clock: \<open>time.time()\<close> and the two local-time renderings
  \<open>strftime("%H:%M:%S")\<close> and \<open>strftime("%Y-%m-%d %H:%M:%S")\<close>. A method call takes one
  reading.
\<close>

record clock =
  epoch :: rat
  hms :: pystr
  ymd_hms :: pystr

definition elapsed :: "clock \<Rightarrow> progress_manager \<Rightarrow> rat" where
  "elapsed c pm = (case start_time pm of None \<Rightarrow> 0 | Some t \<Rightarrow> epoch c - t)"

definition elapsed_str :: "clock \<Rightarrow> progress_manager \<Rightarrow> pystr" where
  "elapsed_str c pm =
     (let s = py_int_of_float (elapsed c pm) in
      if s < 60 then show_int s @ u ''s''
      else show_int (s div 60) @ u ''m'' @ show_int (s mod 60) @ u ''s'')"

definition compute_progress :: "progress_manager \<Rightarrow> int" where
  "compute_progress pm =
     (let base = progress (stage_info_of (current_stage pm)) in
      if current_stage pm = u ''transcribe'' \<and> 0 < transcribe_percent pm
      then let extra = py_int_of_float (of_int (transcribe_percent pm) * (1/2))
           in min (base + extra) 90
      else base)"

text \<open>\<open>xs[-5:]\<close>.\<close>

definition last5 :: "'a list \<Rightarrow> 'a list" where
  "last5 xs = drop (length xs - 5) xs"

definition status_of :: "clock \<Rightarrow> progress_manager \<Rightarrow> status" where
  "status_of c pm =
     \<lparr>st_timestamp = ymd_hms c,
      st_state = current_stage pm,
      st_state_label = label (stage_info_of (current_stage pm)),
      st_progress = compute_progress pm,
      st_filename = filename pm,
      st_filesize_mb = round1 (filesize_mb pm),
      st_duration_sec = round1 (duration_sec pm),
      st_elapsed = elapsed_str c pm,
      st_elapsed_sec = round1 (elapsed c pm),
      st_detail = detail pm,
      st_transcribe_percent = transcribe_percent pm,
      st_error = error pm,
      st_total_completed = total_completed pm,
      st_total_failed = total_failed pm,
      st_queue = queue pm,
      st_queue_position = 0,
      st_history = last5 (history pm)\<rparr>"

definition write_status :: "clock \<Rightarrow> progress_manager \<Rightarrow> progress_manager" where
  "write_status c pm = pm\<lparr>status_file := status_file pm @ [status_of c pm]\<rparr>"

text \<open>\<open>__init__\<close>: a fresh manager, whose constructor already writes the status file.\<close>

definition init :: "clock \<Rightarrow> progress_manager" where
  "init c = write_status c
     \<lparr>start_time = None, filename = [], filesize_mb = 0, duration_sec = 0,
      current_stage = u ''idle'', detail = [], transcribe_percent = 0, error = [],
      history = [], total_completed = 0, total_failed = 0, queue = [],
      status_file = []\<rparr>"

definition start :: "clock \<Rightarrow> pystr \<Rightarrow> rat \<Rightarrow> rat \<Rightarrow> progress_manager \<Rightarrow> progress_manager" where
  "start c fname size_mb dur pm = write_status c
     (pm\<lparr>start_time := Some (epoch c), filename := fname, filesize_mb := size_mb,
         duration_sec := dur, current_stage := u ''waiting'', detail := [],
         transcribe_percent := 0, error := []\<rparr>)"

definition update :: "clock \<Rightarrow> pystr \<Rightarrow> pystr \<Rightarrow> int \<Rightarrow> rat \<Rightarrow> progress_manager \<Rightarrow> progress_manager" where
  "update c stage det tp dur pm =
     (let pm1 = pm\<lparr>current_stage := stage\<rparr>;
          pm2 = (if det \<noteq> [] then pm1\<lparr>detail := det\<rparr> else pm1);
          pm3 = (if 0 < tp then pm2\<lparr>transcribe_percent := tp\<rparr> else pm2);
          pm4 = (if 0 < dur then pm3\<lparr>duration_sec := dur\<rparr> else pm3)
      in write_status c pm4)"

definition update_transcribe_progress :: "clock \<Rightarrow> int \<Rightarrow> pystr \<Rightarrow> progress_manager \<Rightarrow> progress_manager" where
  "update_transcribe_progress c percent det pm =
     (let pm1 = pm\<lparr>transcribe_percent := min percent 100\<rparr>;
          pm2 = (if det \<noteq> [] then pm1\<lparr>detail := det\<rparr> else pm1)
      in write_status c pm2)"

text \<open>The result marks are U+2705 and U+274C.\<close>

definition RESULT_OK :: pystr where "RESULT_OK = [9989]"
definition RESULT_FAIL :: pystr where "RESULT_FAIL = [10060]"

text \<open>
  \<open>finish\<close>; the success detail is the f-string whose fixed parts are the code points
  below. The parameter \<open>output_file\<close> of the source is unused by it.
\<close>

definition finish :: "clock \<Rightarrow> bool \<Rightarrow> pystr \<Rightarrow> int \<Rightarrow> int \<Rightarrow> progress_manager \<Rightarrow> progress_manager" where
  "finish c success lang segments speakers pm =
     (let el = elapsed_str c pm in
      write_status c
       (if success
        then pm\<lparr>current_stage := u ''done'',
                transcribe_percent := 100,
                detail := [35821, 35328, 58, 32] @ lang
                          @ [32, 124, 32, 29255, 27573, 58, 32] @ show_int segments
                          @ [32, 124, 32, 35828, 35805, 20154, 58, 32] @ show_int speakers,
                total_completed := total_completed pm + 1,
                history := history pm @
                  [\<lparr>h_time = hms c, h_file = filename pm, h_result = RESULT_OK,
                    h_lang = Some lang, h_error = None, h_elapsed = el\<rparr>]\<rparr>
        else pm\<lparr>current_stage := u ''failed'',
                total_failed := total_failed pm + 1,
                history := history pm @
                  [\<lparr>h_time = hms c, h_file = filename pm, h_result = RESULT_FAIL,
                    h_lang = None, h_error = Some (take 50 (error pm)), h_elapsed = el\<rparr>]\<rparr>))"

definition set_error :: "clock \<Rightarrow> pystr \<Rightarrow> progress_manager \<Rightarrow> progress_manager" where
  "set_error c e pm = write_status c (pm\<lparr>error := e\<rparr>)"

definition reset_to_idle :: "clock \<Rightarrow> progress_manager \<Rightarrow> progress_manager" where
  "reset_to_idle c pm = write_status c
     (pm\<lparr>current_stage := u ''idle'', filename := [], filesize_mb := 0, duration_sec := 0,
         detail := [], transcribe_percent := 0, error := [], start_time := None\<rparr>)"

definition add_to_queue :: "clock \<Rightarrow> pystr \<Rightarrow> rat \<Rightarrow> progress_manager \<Rightarrow> progress_manager" where
  "add_to_queue c fname size_mb pm = write_status c
     (pm\<lparr>queue := queue pm @
        [\<lparr>q_filename = fname, q_filesize_mb = round1 size_mb, q_queued_at = hms c\<rparr>]\<rparr>)"

definition remove_from_queue :: "clock \<Rightarrow> pystr \<Rightarrow> progress_manager \<Rightarrow> progress_manager" where
  "remove_from_queue c fname pm = write_status c
     (pm\<lparr>queue := filter (\<lambda>item. q_filename item \<noteq> fname) (queue pm)\<rparr>)"

section \<open>notifier.py: the confirmation dialog\<close>

text \<open>
  What \<open>subprocess.run\<close> does with the dialog script: it completes and its standard output is
  captured (the return code is not looked at), it raises \<open>TimeoutExpired\<close>, or it raises
  anything else (for instance the program is missing).
\<close>

datatype run_outcome = Completed pystr | TimeoutExpired | RunFailed

text \<open>\<open>str.isspace\<close>, which \<open>str.strip()\<close> uses (CPython 3.11, Unicode 14).\<close>

definition py_isspace :: "int \<Rightarrow> bool" where
  "py_isspace c \<longleftrightarrow>
     (9 \<le> c \<and> c \<le> 13) \<or> (28 \<le> c \<and> c \<le> 32) \<or> c = 133 \<or> c = 160 \<or> c = 5760
     \<or> (8192 \<le> c \<and> c \<le> 8202) \<or> c = 8232 \<or> c = 8233 \<or> c = 8239 \<or> c = 8287
     \<or> c = 12288"

definition strip :: "pystr \<Rightarrow> pystr" where
  "strip s = rev (dropWhile py_isspace (rev (dropWhile py_isspace s)))"

definition run_osascript :: "run_outcome \<Rightarrow> pystr" where
  "run_osascript r =
     (case r of
        Completed out \<Rightarrow> strip out
      | TimeoutExpired \<Rightarrow> []
      | RunFailed \<Rightarrow> [])"

text \<open>The label of the accepting button, U+8F6C U+5F55.\<close>

definition ACCEPT_BUTTON :: pystr where
  "ACCEPT_BUTTON = [36716, 24405]"

text \<open>
  \<open>ask_confirm\<close> builds the dialog script from the file name and size, runs it once through
  \<open>_run_osascript\<close> and compares the result with the label; the argument is the outcome of
  that run.
\<close>

definition ask_confirm :: "run_outcome \<Rightarrow> bool" where
  "ask_confirm dialog = (if run_osascript dialog = ACCEPT_BUTTON then True else False)"

section \<open>watcher.py: waiting for a stable file size\<close>

definition FILE_STABLE_CHECK_INTERVAL :: int where
  "FILE_STABLE_CHECK_INTERVAL = 2"

definition FILE_STABLE_MAX_WAIT :: int where
  "FILE_STABLE_MAX_WAIT = 300"

text \<open>
  What one round of the loop observes. \<open>path.exists()\<close> is false; or \<open>path.exists()\<close>
  raises: \<open>Path.exists\<close> (Python 3.11) gives false only for an \<open>OSError\<close> whose errno is
  ENOENT, ENOTDIR, EBADF or ELOOP and passes every other one on, for instance EACCES when
  the directory has lost its search permission, and the call stands outside the \<open>try\<close> of
  the loop; or \<open>path.stat()\<close> raises \<open>OSError\<close> inside the \<open>try\<close>; or the size in bytes.
  The file system is the sequence of these observations, one per round.
\<close>

datatype poll = Missing | ExistsError | StatError | Size nat

text \<open>The exception that can leave \<open>_wait_for_stable\<close>.\<close>

datatype watch_error = OSError

function wait_loop :: "(nat \<Rightarrow> poll) \<Rightarrow> nat \<Rightarrow> int \<Rightarrow> int \<Rightarrow> watch_error + bool" where
  "wait_loop polls i waited prev_size =
     (if waited < FILE_STABLE_MAX_WAIT then
        (case polls i of
           Missing \<Rightarrow> Inr False
         | ExistsError \<Rightarrow> Inl OSError
         | StatError \<Rightarrow> Inr False
         | Size curr_size \<Rightarrow>
             if 0 < int curr_size \<and> int curr_size = prev_size then Inr True
             else wait_loop polls (Suc i) (waited + FILE_STABLE_CHECK_INTERVAL) (int curr_size))
      else Inr False)"
  by pat_completeness auto
termination
  by (relation "measure (\<lambda>(polls, i, waited, prev_size). nat (FILE_STABLE_MAX_WAIT - waited))")
     (auto simp add: FILE_STABLE_CHECK_INTERVAL_def FILE_STABLE_MAX_WAIT_def)

declare wait_loop.simps [simp del]

definition wait_for_stable :: "(nat \<Rightarrow> poll) \<Rightarrow> watch_error + bool" where
  "wait_for_stable polls = wait_loop polls 0 0 (- 1)"

section \<open>file_manager.py: the processed record, numbering and naming\<close>

text \<open>
  \<open>logs/processed.json\<close>: \<open>None\<close> when the file is absent or does not parse, otherwise the
  array of paths it holds.
\<close>

definition load_processed :: "pystr list option \<Rightarrow> pystr set" where
  "load_processed processed_json = (case processed_json of None \<Rightarrow> {} | Some ps \<Rightarrow> set ps)"

definition save_processed :: "pystr set \<Rightarrow> pystr list option" where
  "save_processed processed = Some (sorted_list_of_set processed)"

definition mark_processed :: "pystr \<Rightarrow> pystr list option \<Rightarrow> pystr list option" where
  "mark_processed filepath processed_json =
     save_processed (insert filepath (load_processed processed_json))"

definition is_processed :: "pystr \<Rightarrow> pystr list option \<Rightarrow> bool" where
  "is_processed filepath processed_json \<longleftrightarrow> filepath \<in> load_processed processed_json"

text \<open>
  \<open>Path.suffix\<close> and \<open>Path.stem\<close> of a file name (pathlib up to Python 3.13): the name is
  split at its last dot, unless that dot is the first or the last character.
\<close>

definition path_suffix :: "pystr \<Rightarrow> pystr" where
  "path_suffix name =
     (let after = rev (takeWhile (\<lambda>c. c \<noteq> 46) (rev name))
      in if 46 \<in> set name \<and> after \<noteq> [] \<and> Suc (length after) < length name
         then 46 # after else [])"

definition path_stem :: "pystr \<Rightarrow> pystr" where
  "path_stem name = take (length name - length (path_suffix name)) name"

definition startswith :: "pystr \<Rightarrow> pystr \<Rightarrow> bool" where
  "startswith s p \<longleftrightarrow> take (length p) s = p"

text \<open>
  \<open>int(s)\<close> on a string (CPython 3.11, Unicode 14): surrounding white space is dropped, one
  sign may lead, and the rest is decimal digits of any script, where single underscores may
  stand between digits. \<open>None\<close> is \<open>ValueError\<close>. (The interpreter also refuses more than
  4300 digits; file names are shorter.)
\<close>

definition int_space :: "int \<Rightarrow> bool" where
  "int_space c \<longleftrightarrow>
     (9 \<le> c \<and> c \<le> 13) \<or> c = 32 \<or> c = 133 \<or> c = 160 \<or> c = 5760
     \<or> (8192 \<le> c \<and> c \<le> 8202) \<or> c = 8232 \<or> c = 8233 \<or> c = 8239 \<or> c = 8287
     \<or> c = 12288"

text \<open>The first code point of every run of ten decimal digits (general category Nd).\<close>

definition DIGIT_ZEROS :: "int list" where
  "DIGIT_ZEROS =
    [48, 1632, 1776, 1984, 2406, 2534, 2662, 2790, 2918, 3046, 3174, 3302, 3430, 3558,
     3664, 3792, 3872, 4160, 4240, 6112, 6160, 6470, 6608, 6784, 6800, 6992, 7088, 7232,
     7248, 42528, 43216, 43264, 43472, 43504, 43600, 44016, 65296, 66720, 68912, 69734,
     69872, 69942, 70096, 70384, 70736, 70864, 71248, 71360, 71472, 71904, 72016, 72784,
     73040, 73120, 92768, 92864, 93008, 120782, 120792, 120802, 120812, 120822, 123200,
     123632, 125264, 130032]"

definition decimal_digit :: "int \<Rightarrow> nat option" where
  "decimal_digit c =
     (case find (\<lambda>z. z \<le> c \<and> c < z + 10) DIGIT_ZEROS of
        Some z \<Rightarrow> Some (nat (c - z))
      | None \<Rightarrow> None)"

fun digits_value :: "nat \<Rightarrow> pystr \<Rightarrow> nat option" where
  "digits_value acc [] = Some acc"
| "digits_value acc (c # cs) =
     (if c = 95 then
        (case cs of
           [] \<Rightarrow> None
         | d # ds \<Rightarrow>
             (case decimal_digit d of
                None \<Rightarrow> None
              | Some v \<Rightarrow> digits_value (acc * 10 + v) ds))
      else
        (case decimal_digit c of
           None \<Rightarrow> None
         | Some v \<Rightarrow> digits_value (acc * 10 + v) cs))"

definition unsigned_value :: "pystr \<Rightarrow> nat option" where
  "unsigned_value s =
     (case s of
        [] \<Rightarrow> None
      | d # ds \<Rightarrow> (case decimal_digit d of None \<Rightarrow> None | Some v \<Rightarrow> digits_value v ds))"

definition py_int :: "pystr \<Rightarrow> int option" where
  "py_int s =
     (let t = rev (dropWhile int_space (rev (dropWhile int_space s))) in
      case t of
        [] \<Rightarrow> None
      | c # cs \<Rightarrow>
          if c = 45 then map_option (\<lambda>n. - int n) (unsigned_value cs)
          else if c = 43 then map_option int (unsigned_value cs)
          else map_option int (unsigned_value t))"

text \<open>The fields of a \<open>datetime\<close> that the naming uses.\<close>

record date =
  year :: nat
  month :: nat
  day :: nat

definition name_prefix :: "date \<Rightarrow> pystr \<Rightarrow> pystr" where
  "name_prefix d lang =
     show_nat (year d) @ u ''_'' @ show_nat (month d) @ u ''_'' @ show_nat (day d) @ u ''_''
     @ lang @ u ''_''"

text \<open>
  The body of the loop of \<open>get_next_index\<close> for one entry of \<open>VIDEO_DIR\<close>: the index it
  appends to \<open>existing\<close>, if any.
\<close>

definition entry_index :: "pystr \<Rightarrow> pystr \<Rightarrow> int option" where
  "entry_index prefix f =
     (let name = path_stem f;
          name = (if startswith name (u ''fail_'') then drop 5 name else name)
      in if startswith name prefix then py_int (drop (length prefix) name) else None)"

text \<open>\<open>max(existing, default=0)\<close>.\<close>

definition max_default :: "int list \<Rightarrow> int \<Rightarrow> int" where
  "max_default xs d = (case xs of [] \<Rightarrow> d | y # ys \<Rightarrow> fold max ys y)"

text \<open>\<open>video_dir\<close> is the listing of \<open>VIDEO_DIR\<close>, the names that \<open>iterdir()\<close> yields.\<close>

definition get_next_index :: "pystr list \<Rightarrow> date \<Rightarrow> pystr \<Rightarrow> int" where
  "get_next_index video_dir d lang =
     (let prefix = name_prefix d lang;
          existing = List.map_filter (entry_index prefix) video_dir
      in max_default existing 0 + 1)"

definition generate_standard_name :: "pystr list \<Rightarrow> pystr \<Rightarrow> date \<Rightarrow> pystr" where
  "generate_standard_name video_dir lang d =
     (let idx = get_next_index video_dir d lang
      in show_nat (year d) @ u ''_'' @ show_nat (month d) @ u ''_'' @ show_nat (day d) @ u ''_''
         @ lang @ u ''_'' @ show_int idx)"

section \<open>transcriber.py: normalising the recogniser's result\<close>

text \<open>
  The values the recogniser can hand back: \<open>None\<close>, booleans, integers, floats, strings,
  lists, tuples and dicts with string keys (an association list; the first entry of a key
  counts).
\<close>

datatype pyval =
    PNone
  | PBool bool
  | PInt int
  | PFloat rat
  | PStr pystr
  | PList "pyval list"
  | PTuple "pyval list"
  | PDict "(pystr \<times> pyval) list"

datatype py_error = TypeError | AttributeError

text \<open>Truth value of an object, as \<open>if x:\<close> tests it.\<close>

fun truthy :: "pyval \<Rightarrow> bool" where
  "truthy PNone = False"
| "truthy (PBool b) = b"
| "truthy (PInt i) = (i \<noteq> 0)"
| "truthy (PFloat x) = (x \<noteq> 0)"
| "truthy (PStr s) = (s \<noteq> [])"
| "truthy (PList xs) = (xs \<noteq> [])"
| "truthy (PTuple xs) = (xs \<noteq> [])"
| "truthy (PDict kvs) = (kvs \<noteq> [])"

text \<open>What a \<open>for\<close> loop over the object visits; numbers and \<open>None\<close> are not iterable.\<close>

fun py_iter :: "pyval \<Rightarrow> py_error + pyval list" where
  "py_iter (PList xs) = Inr xs"
| "py_iter (PTuple xs) = Inr xs"
| "py_iter (PStr s) = Inr (map (\<lambda>c. PStr [c]) s)"
| "py_iter (PDict kvs) = Inr (map (\<lambda>kv. PStr (fst kv)) (AList.clearjunk kvs))"
| "py_iter PNone = Inl TypeError"
| "py_iter (PBool b) = Inl TypeError"
| "py_iter (PInt i) = Inl TypeError"
| "py_iter (PFloat x) = Inl TypeError"

text \<open>\<open>len(x)\<close>.\<close>

fun py_len :: "pyval \<Rightarrow> py_error + nat" where
  "py_len (PList xs) = Inr (length xs)"
| "py_len (PTuple xs) = Inr (length xs)"
| "py_len (PStr s) = Inr (length s)"
| "py_len (PDict kvs) = Inr (length (AList.clearjunk kvs))"
| "py_len PNone = Inl TypeError"
| "py_len (PBool b) = Inl TypeError"
| "py_len (PInt i) = Inl TypeError"
| "py_len (PFloat x) = Inl TypeError"

text \<open>\<open>d.get(key, default)\<close>.\<close>

definition dict_get :: "(pystr \<times> pyval) list \<Rightarrow> pystr \<Rightarrow> pyval \<Rightarrow> pyval" where
  "dict_get d k dflt = (case map_of d k of Some v \<Rightarrow> v | None \<Rightarrow> dflt)"

text \<open>
  \<open>str(x)\<close>: a string is itself; how the interpreter prints any other object is the
  parameter \<open>render\<close>.
\<close>

definition py_str :: "(pyval \<Rightarrow> pystr) \<Rightarrow> pyval \<Rightarrow> pystr" where
  "py_str render v = (case v of PStr s \<Rightarrow> s | _ \<Rightarrow> render v)"

text \<open>A segment is a dict with the four keys \<open>start\<close>, \<open>end\<close>, \<open>text\<close> and \<open>speaker\<close>.\<close>

record segment =
  seg_start :: pyval
  seg_end :: pyval
  seg_text :: pyval
  seg_speaker :: pyval

text \<open>
  The speaker of a sentence: an \<open>int\<close> (which a \<open>bool\<close> also is) becomes \<open>spk{n}\<close>, any
  other true value its \<open>str\<close>, and a false value stays as it is.
\<close>

definition speaker_of :: "(pyval \<Rightarrow> pystr) \<Rightarrow> pyval \<Rightarrow> pyval" where
  "speaker_of render v =
     (case v of
        PInt n \<Rightarrow> PStr (u ''spk'' @ show_int n)
      | PBool b \<Rightarrow> PStr (u ''spk'' @ (if b then u ''True'' else u ''False''))
      | _ \<Rightarrow> if truthy v then PStr (py_str render v) else v)"

text \<open>The body of the loop over \<open>sentence_info\<close>; \<open>sent.get\<close> needs a dict.\<close>

definition sentence_segment :: "(pyval \<Rightarrow> pystr) \<Rightarrow> pyval \<Rightarrow> py_error + segment" where
  "sentence_segment render sent =
     (case sent of
        PDict sd \<Rightarrow>
          Inr \<lparr>seg_start = dict_get sd (u ''start'') (PInt 0),
               seg_end = dict_get sd (u ''end'') (PInt 0),
               seg_text = dict_get sd (u ''text'') (PStr []),
               seg_speaker = speaker_of render (dict_get sd (u ''spk'') (PStr []))\<rparr>
      | _ \<Rightarrow> Inl AttributeError)"

text \<open>A loop that appends one result per element and stops at the first exception.\<close>

fun try_map :: "('a \<Rightarrow> py_error + 'b) \<Rightarrow> 'a list \<Rightarrow> py_error + 'b list" where
  "try_map f [] = Inr []"
| "try_map f (x # xs) =
     (case f x of
        Inl e \<Rightarrow> Inl e
      | Inr y \<Rightarrow> (case try_map f xs of Inl e \<Rightarrow> Inl e | Inr ys \<Rightarrow> Inr (y # ys)))"

text \<open>
  The body of the loop over \<open>enumerate(timestamp)\<close>: an entry that is a list or tuple of at
  least two elements gives a segment, any other entry gives none.
\<close>

definition timestamp_segment :: "pyval \<Rightarrow> nat \<times> pyval \<Rightarrow> segment option" where
  "timestamp_segment text its =
     (let i = fst its; ts = snd its;
          span = (case ts of PList xs \<Rightarrow> Some xs | PTuple xs \<Rightarrow> Some xs | _ \<Rightarrow> None)
      in case span of
           None \<Rightarrow> None
         | Some xs \<Rightarrow>
             if 2 \<le> length xs
             then Some \<lparr>seg_start = xs ! 0, seg_end = xs ! 1,
                        seg_text = (if i = 0 then text else PStr []),
                        seg_speaker = PStr []\<rparr>
             else None)"

text \<open>The body of the loop over the result: the segments one item contributes.\<close>

definition item_segments :: "(pyval \<Rightarrow> pystr) \<Rightarrow> pyval \<Rightarrow> py_error + segment list" where
  "item_segments render item =
     (case item of
        PDict d \<Rightarrow>
          (let text = dict_get d (u ''text'') (PStr []);
               sentence_info = dict_get d (u ''sentence_info'') (PList [])
           in if truthy sentence_info then
                (case py_iter sentence_info of
                   Inl e \<Rightarrow> Inl e
                 | Inr sents \<Rightarrow> try_map (sentence_segment render) sents)
              else if truthy text then
                (let timestamp = dict_get d (u ''timestamp'') (PList []) in
                 if truthy timestamp then
                   (case py_len timestamp of
                      Inl e \<Rightarrow> Inl e
                    | Inr n \<Rightarrow>
                        if 0 < n then
                          (case py_iter timestamp of
                             Inl e \<Rightarrow> Inl e
                           | Inr tss \<Rightarrow>
                               Inr (List.map_filter (timestamp_segment text) (enumerate 0 tss)))
                        else
                          Inr [\<lparr>seg_start = PInt 0, seg_end = PInt 0, seg_text = text,
                                seg_speaker = PStr []\<rparr>])
                 else
                   Inr [\<lparr>seg_start = PInt 0, seg_end = PInt 0, seg_text = text,
                         seg_speaker = PStr []\<rparr>])
              else Inr [])
      | _ \<Rightarrow>
          Inr [\<lparr>seg_start = PInt 0, seg_end = PInt 0, seg_text = PStr (py_str render item),
                seg_speaker = PStr []\<rparr>])"

definition parse_funasr_result :: "(pyval \<Rightarrow> pystr) \<Rightarrow> pyval \<Rightarrow> py_error + segment list" where
  "parse_funasr_result render result =
     (if \<not> truthy result then Inr []
      else case py_iter result of
             Inl e \<Rightarrow> Inl e
           | Inr items \<Rightarrow>
               (case try_map (item_segments render) items of
                  Inl e \<Rightarrow> Inl e
                | Inr segss \<Rightarrow> Inr (concat segss)))"

section \<open>file_manager.py: moving the source file\<close>

text \<open>
  The name that \<open>move_video\<close> tries after \<open>counter - 1\<close> collisions:
  \<open>{standard_name}_{counter}{ext}\<close>, with \<open>fail_\<close> in front for a failed task.
\<close>

definition numbered_name :: "pystr \<Rightarrow> pystr \<Rightarrow> bool \<Rightarrow> nat \<Rightarrow> pystr" where
  "numbered_name standard_name ext success counter =
     (if success then [] else u ''fail_'') @ standard_name @ u ''_'' @ show_nat counter @ ext"

text \<open>Distinct counters give distinct names, so the search for a free name ends.\<close>

lemma show_nat_length_one: "length (show_nat n) = Suc 0 \<longleftrightarrow> n < 10"
proof (cases "n < 10")
  case True
  then show ?thesis by (subst show_nat.simps) simp
next
  case False
  have "show_nat (n div 10) \<noteq> []" by (subst show_nat.simps) simp
  then have "length (show_nat (n div 10)) \<noteq> 0" by simp
  then show ?thesis using False by (subst show_nat.simps) simp
qed

lemma show_nat_inj: "show_nat m = show_nat n \<Longrightarrow> m = n"
proof (induction m arbitrary: n rule: show_nat.induct)
  case (1 m)
  show ?case
  proof (cases "m < 10")
    case True
    then have "length (show_nat m) = Suc 0" by (simp add: show_nat_length_one)
    with "1.prems" have "length (show_nat n) = Suc 0" by simp
    then have n: "n < 10" by (simp add: show_nat_length_one)
    have "show_nat m = [48 + int m]" using True by (subst show_nat.simps) simp
    moreover have "show_nat n = [48 + int n]" using n by (subst show_nat.simps) simp
    ultimately have "[48 + int m] = [48 + int n]" by (simp only: "1.prems")
    then show ?thesis by simp
  next
    case False
    then have "length (show_nat m) \<noteq> Suc 0" by (simp add: show_nat_length_one)
    with "1.prems" have "length (show_nat n) \<noteq> Suc 0" by simp
    then have n: "\<not> n < 10" by (simp add: show_nat_length_one)
    have "show_nat m = show_nat (m div 10) @ [48 + int (m mod 10)]"
      using False by (subst show_nat.simps) simp
    moreover have "show_nat n = show_nat (n div 10) @ [48 + int (n mod 10)]"
      using n by (subst show_nat.simps) simp
    ultimately have "show_nat (m div 10) @ [48 + int (m mod 10)] =
        show_nat (n div 10) @ [48 + int (n mod 10)]"
      by (simp only: "1.prems")
    then have "show_nat (m div 10) = show_nat (n div 10)" "m mod 10 = n mod 10"
      by simp_all
    then have "m div 10 = n div 10" "m mod 10 = n mod 10" using "1.IH"[OF False] by simp_all
    then show ?thesis by (metis div_mult_mod_eq)
  qed
qed


lemma numbered_name_inj: "inj (numbered_name standard_name ext success)"
proof (rule injI)
  fix j k
  assume "numbered_name standard_name ext success j = numbered_name standard_name ext success k"
  then have e: "show_nat j @ ext = show_nat k @ ext"
    by (simp add: numbered_name_def)
  then have "length (show_nat j) = length (show_nat k)"
    by (metis add_right_cancel length_append)
  then have "show_nat j = show_nat k" using e by simp
  then show "j = k" by (rule show_nat_inj)
qed

lemma numbered_name_finite:
  "finite {k. numbered_name standard_name ext success k \<in> set dir}"
proof -
  have "finite (numbered_name standard_name ext success -` set dir)"
    by (rule finite_vimageI) (simp_all add: numbered_name_inj)
  then show ?thesis by (simp add: vimage_def)
qed

text \<open>
  The loop \<open>while dest.exists()\<close> of \<open>move_video\<close>, over the listing \<open>dir\<close> of
  \<open>VIDEO_DIR\<close>.
\<close>

function find_dest :: "pystr list \<Rightarrow> pystr \<Rightarrow> pystr \<Rightarrow> bool \<Rightarrow> pystr \<Rightarrow> nat \<Rightarrow> pystr" where
  "find_dest dir standard_name ext success dest counter =
     (if dest \<in> set dir
      then find_dest dir standard_name ext success
             (numbered_name standard_name ext success counter) (Suc counter)
      else dest)"
  by pat_completeness auto
termination
proof (relation "measure (\<lambda>(dir, standard_name, ext, success, dest, counter).
    card {k. counter \<le> k \<and> numbered_name standard_name ext success k \<in> set dir}
    + (if dest \<in> set dir then 1 else 0))")
  show "wf (measure (\<lambda>(dir, standard_name, ext, success, dest, counter).
    card {k. counter \<le> k \<and> numbered_name standard_name ext success k \<in> set dir}
    + (if dest \<in> set dir then 1 else 0)))"
    by simp
next
  fix dir :: "pystr list" and standard_name ext :: pystr and success :: bool
    and dest :: pystr and counter :: nat
  assume d: "dest \<in> set dir"
  let ?A = "{k. Suc counter \<le> k \<and> numbered_name standard_name ext success k \<in> set dir}"
  let ?B = "{k. counter \<le> k \<and> numbered_name standard_name ext success k \<in> set dir}"
  have fin: "finite ?B"
    using numbered_name_finite [of standard_name ext success dir] by simp
  have "card ?A + (if numbered_name standard_name ext success counter \<in> set dir then 1 else 0)
        = card ?B"
  proof (cases "numbered_name standard_name ext success counter \<in> set dir")
    case True
    have "?B = insert counter ?A" using True by (auto simp add: le_Suc_eq)
    moreover have "counter \<notin> ?A" by simp
    moreover have "finite ?A" using fin by (rule rev_finite_subset) auto
    ultimately show ?thesis using True by simp
  next
    case False
    have "?B = ?A" using False by (auto simp add: le_Suc_eq) (metis Suc_leI le_neq_implies_less)
    then show ?thesis using False by simp
  qed
  then show "((dir, standard_name, ext, success,
               numbered_name standard_name ext success counter, Suc counter),
              (dir, standard_name, ext, success, dest, counter))
        \<in> measure (\<lambda>(dir, standard_name, ext, success, dest, counter).
            card {k. counter \<le> k \<and> numbered_name standard_name ext success k \<in> set dir}
            + (if dest \<in> set dir then 1 else 0))"
    using d by simp
qed

declare find_dest.simps [simp del]

text \<open>\<open>Path.name\<close> of a path given as a string: what follows the last slash.\<close>

definition path_name :: "pystr \<Rightarrow> pystr" where
  "path_name p = rev (takeWhile (\<lambda>c. c \<noteq> 47) (rev p))"

section \<open>main.py: processing one task\<close>

text \<open>
  The state that one call of \<open>process_video\<close> can see and change: the progress singleton,
  the number of clock readings taken so far, the content of \<open>logs/processed.json\<close>, the
  files outside the managed directories (path to size in bytes) and the listings of
  \<open>VIDEO_DIR\<close> and \<open>TXT_DIR\<close>.
\<close>

record world =
  progress_state :: progress_manager
  clock_reads :: nat
  processed_file :: "pystr list option"
  files :: "pystr \<Rightarrow> nat option"
  video_files :: "pystr list"
  txt_files :: "pystr list"

text \<open>
  What the surroundings of one run supply: the clock readings in order, today's date, and
  the outcomes of the collaborators. \<open>extract_audio\<close> and \<open>_load_model\<close> raise with a
  message or return; \<open>_get_audio_duration\<close> gives seconds, shown to the user as the text
  \<open>duration_min\<close> (formatted with one decimal); \<open>detect_language\<close> never raises; the
  recogniser runs while the progress is sampled (each sample a raw percent and a text),
  then raises or returns its result; \<open>str\<close> of values and of the exceptions raised by the
  normalisation is the interpreter's; \<open>save_transcript_md\<close> and \<open>shutil.move\<close> raise with a
  message or succeed. Notifications change nothing that is modelled.
\<close>

record collab =
  env_clock :: "nat \<Rightarrow> clock"
  env_today :: date
  env_extract_error :: "pystr option"
  env_audio_duration :: rat
  env_duration_min :: pystr
  env_language :: pystr
  env_load_error :: "pystr option"
  env_ticks :: "(int \<times> pystr) list"
  env_asr_result :: "pystr + pyval"
  env_render :: "pyval \<Rightarrow> pystr"
  env_describe :: "py_error \<Rightarrow> pystr"
  env_md_error :: "pystr option"
  env_move_error :: "pystr option"
  env_fallback_move_error :: "pystr option"

datatype os_error = FileNotFoundError

text \<open>One call of a method of the progress singleton, with the next clock reading.\<close>

definition call :: "collab \<Rightarrow> (clock \<Rightarrow> progress_manager \<Rightarrow> progress_manager) \<Rightarrow> world \<Rightarrow> world" where
  "call env method w =
     w\<lparr>progress_state := method (env_clock env (clock_reads w)) (progress_state w),
       clock_reads := Suc (clock_reads w)\<rparr>"

text \<open>
  \<open>move_video\<close>: the destination is the first free name, and the move either raises
  (\<open>move_error\<close>) or takes the source away and adds the destination to \<open>VIDEO_DIR\<close>.
\<close>

definition move_video :: "pystr option \<Rightarrow> pystr \<Rightarrow> pystr \<Rightarrow> bool \<Rightarrow> world \<Rightarrow> pystr + world" where
  "move_video move_error src standard_name success w =
     (let ext = path_suffix (path_name src);
          dest_name = (if success then standard_name @ ext
                       else u ''fail_'' @ standard_name @ ext);
          dest = find_dest (video_files w) standard_name ext success dest_name 1
      in case move_error of
           Some message \<Rightarrow> Inl message
         | None \<Rightarrow> Inr (w\<lparr>files := (files w)(src := None),
                           video_files := video_files w @ [dest]\<rparr>))"

text \<open>The label shown for a language; the Chinese labels are written as code points.\<close>

definition lang_label_of :: "pystr \<Rightarrow> pystr" where
  "lang_label_of lang =
     (if lang = u ''zh'' then [20013, 25991]
      else if lang = u ''en'' then u ''English''
      else if lang = u ''en_cn'' then [20013, 33521, 28151, 21512]
      else lang)"

text \<open>
  The \<open>try\<close> block of \<open>process_video\<close>. It ends normally with the new state, or with an
  exception: its message, the standard name if one was generated already, and the state
  reached. The fixed parts of the detail texts are code points of the source's literals.
\<close>

definition try_block :: "collab \<Rightarrow> pystr \<Rightarrow> pystr \<Rightarrow> world \<Rightarrow> (pystr \<times> pystr option \<times> world) + world" where
  "try_block env video_path fname w0 =
     (let w1 = call env (\<lambda>c. update c (u ''extract'') fname 0 0) w0 in
      case env_extract_error env of
        Some message \<Rightarrow> Inl (message, None, w1)
      | None \<Rightarrow>
         (let duration = env_audio_duration env;
              duration_min = env_duration_min env;
              w2 = call env (\<lambda>c. update c (u ''detect'')
                     ([38899, 39057, 26102, 38271, 58, 32] @ duration_min) 0 duration) w1;
              lang = env_language env;
              lang_label = lang_label_of lang;
              w3 = call env (\<lambda>c. update c (u ''transcribe'')
                     ([35821, 35328, 58, 32] @ lang_label
                      @ [32, 124, 32, 26102, 38271, 58, 32] @ duration_min) 0 0) w2
          in case env_load_error env of
               Some message \<Rightarrow> Inl (message, None, w3)
             | None \<Rightarrow>
                (let w4 = fold (\<lambda>tick. call env (\<lambda>c. update_transcribe_progress c
                                   (max 1 (min (fst tick) 95)) (snd tick)))
                            (env_ticks env) w3
                 in case env_asr_result env of
                      Inl message \<Rightarrow> Inl (message, None, w4)
                    | Inr result \<Rightarrow>
                       (case parse_funasr_result (env_render env) result of
                          Inl e \<Rightarrow> Inl (env_describe env e, None, w4)
                        | Inr segments \<Rightarrow>
                           (let w5 = call env (\<lambda>c. update c (u ''save'')
                                       [27491, 22312, 20445, 23384, 32, 77, 97, 114, 107,
                                        100, 111, 119, 110, 46, 46, 46] 0 0) w4;
                                standard_name =
                                  generate_standard_name (video_files w5) lang (env_today env)
                            in case env_md_error env of
                                 Some message \<Rightarrow> Inl (message, Some standard_name, w5)
                               | None \<Rightarrow>
                                  (let w6 = w5\<lparr>txt_files :=
                                              txt_files w5 @ [standard_name @ u ''.md'']\<rparr>
                                   in case move_video (env_move_error env) video_path
                                             standard_name True w6 of
                                        Inl message \<Rightarrow> Inl (message, Some standard_name, w6)
                                      | Inr w7 \<Rightarrow>
                                         (let speakers = remdups (filter truthy
                                                           (map seg_speaker segments));
                                              speakers_count = max (int (length speakers)) 1;
                                              w8 = call env (\<lambda>c. finish c True lang
                                                     (int (length segments)) speakers_count) w7
                                          in Inr (call env reset_to_idle w8))))))))"

text \<open>The \<open>except\<close> block: record the failure, try to move the source aside, reset.\<close>

definition except_block :: "collab \<Rightarrow> pystr \<Rightarrow> pystr \<times> pystr option \<times> world \<Rightarrow> world" where
  "except_block env video_path raised =
     (let error_msg = fst raised;
          w0 = snd (snd raised);
          w1 = call env (\<lambda>c. set_error c error_msg) w0;
          w2 = call env (\<lambda>c. finish c False [] 0 0) w1;
          standard_name =
            (case fst (snd raised) of
               None \<Rightarrow> generate_standard_name (video_files w2) (u ''unknown'') (env_today env)
             | Some name \<Rightarrow> name);
          w3 = (case move_video (env_fallback_move_error env) video_path standard_name False w2 of
                  Inl move_err \<Rightarrow> w2
                | Inr moved \<Rightarrow> moved)
      in call env reset_to_idle w3)"

text \<open>
  \<open>process_video\<close>. \<open>video_path.stat()\<close> raises when the file is gone; that exception
  leaves the function (the worker loop logs it).
\<close>

definition process_video :: "collab \<Rightarrow> pystr \<Rightarrow> world \<Rightarrow> os_error + world" where
  "process_video env video_path w =
     (case files w video_path of
        None \<Rightarrow> Inl FileNotFoundError
      | Some size_bytes \<Rightarrow>
         (let fname = path_name video_path;
              size_mb = of_nat size_bytes / 1024 / 1024;
              w1 = call env (\<lambda>c. remove_from_queue c fname) w
          in if is_processed video_path (processed_file w1) then Inr w1
             else
               (let w2 = call env (\<lambda>c. start c fname size_mb 0) w1;
                    w3 = w2\<lparr>processed_file := mark_processed video_path (processed_file w2)\<rparr>
                in case try_block env video_path fname w3 of
                     Inr done \<Rightarrow> Inr done
                   | Inl raised \<Rightarrow> Inr (except_block env video_path raised))))"

text \<open>
  A concrete run, for evaluating the definitions: the task \<open>/d/a.mp4\<close> (one megabyte) is
  in the processed record already, and the queue view shows it and \<open>b.mp4\<close>.
\<close>

definition example_clock :: clock where
  "example_clock = \<lparr>epoch = 100, hms = u ''10:00:00'', ymd_hms = u ''2026-01-01 10:00:00''\<rparr>"

definition example_env :: collab where
  "example_env =
     \<lparr>env_clock = (\<lambda>n. example_clock),
      env_today = \<lparr>year = 2026, month = 1, day = 1\<rparr>,
      env_extract_error = Some (u ''ffmpeg''),
      env_audio_duration = 0,
      env_duration_min = u ''0'',
      env_language = u ''zh'',
      env_load_error = None,
      env_ticks = [],
      env_asr_result = Inr (PList []),
      env_render = (\<lambda>v. []),
      env_describe = (\<lambda>e. []),
      env_md_error = None,
      env_move_error = None,
      env_fallback_move_error = None\<rparr>"

definition example_world :: world where
  "example_world =
     \<lparr>progress_state =
        add_to_queue example_clock (u ''b.mp4'') 2
          (add_to_queue example_clock (u ''a.mp4'') 1 (init example_clock)),
      clock_reads = 0,
      processed_file = Some [u ''/d/a.mp4''],
      files = (\<lambda>p. if p = u ''/d/a.mp4'' \<or> p = u ''/d/c.mp4'' then Some 1048576 else None),
      video_files = [],
      txt_files = []\<rparr>"

section \<open>Properties of the progress state\<close>

lemma stage_progress_table:
  "progress (stage_info_of (u ''idle'')) = 0"
  "progress (stage_info_of (u ''waiting'')) = 5"
  "progress (stage_info_of (u ''extract'')) = 15"
  "progress (stage_info_of (u ''detect'')) = 25"
  "progress (stage_info_of (u ''transcribe'')) = 40"
  "progress (stage_info_of (u ''save'')) = 90"
  "progress (stage_info_of (u ''done'')) = 100"
  "progress (stage_info_of (u ''failed'')) = 100"
  by (simp_all add: stage_info_of_def STAGES_def u_def)

lemma stage_progress_cases:
  "progress (stage_info_of s) =
     (if s = u ''idle'' then 0
      else if s = u ''waiting'' then 5
      else if s = u ''extract'' then 15
      else if s = u ''detect'' then 25
      else if s = u ''transcribe'' then 40
      else if s = u ''save'' then 90
      else if s = u ''done'' then 100
      else if s = u ''failed'' then 100
      else 0)"
  by (simp add: stage_info_of_def STAGES_def)

lemma compute_progress_unfold:
  "compute_progress pm =
     (if current_stage pm = u ''transcribe'' \<and> 0 < transcribe_percent pm
      then min (40 + \<lfloor>rat_of_int (transcribe_percent pm) * (1/2)\<rfloor>) 90
      else progress (stage_info_of (current_stage pm)))"
  by (simp add: compute_progress_def Let_def stage_progress_table py_int_of_float_def)

lemma compute_progress_60:
  "compute_progress (pm\<lparr>current_stage := u ''transcribe'', transcribe_percent := 60\<rparr>) = 70"
proof -
  have "\<lfloor>rat_of_int 60 * (1/2)\<rfloor> = 30" by simp
  then show ?thesis by (simp add: compute_progress_unfold)
qed

text \<open>
  C2. The overall percent is the stage's base percent from the table (0, 5, 15, 25, 40, 90,
  100, 100; an unknown stage name counts as idle), except in stage transcribe with a
  positive sub-percent \<open>p\<close>, where it is \<open>min (40 + floor (p * 0.5)) 90\<close>; with sub-percent
  60 it is 70.
\<close>

theorem compute_progress_blend:
  "compute_progress pm =
     (if current_stage pm = u ''transcribe'' \<and> 0 < transcribe_percent pm
      then min (40 + \<lfloor>rat_of_int (transcribe_percent pm) * (1/2)\<rfloor>) 90
      else if current_stage pm = u ''idle'' then 0
      else if current_stage pm = u ''waiting'' then 5
      else if current_stage pm = u ''extract'' then 15
      else if current_stage pm = u ''detect'' then 25
      else if current_stage pm = u ''transcribe'' then 40
      else if current_stage pm = u ''save'' then 90
      else if current_stage pm = u ''done'' then 100
      else if current_stage pm = u ''failed'' then 100
      else 0)
   \<and> compute_progress (pm\<lparr>current_stage := u ''transcribe'', transcribe_percent := 60\<rparr>) = 70"
proof (rule conjI)
  show "compute_progress (pm\<lparr>current_stage := u ''transcribe'', transcribe_percent := 60\<rparr>) = 70"
    by (rule compute_progress_60)
qed (simp only: compute_progress_unfold stage_progress_cases)

theorem compute_progress_blend_witness:
  "compute_progress (init \<lparr>epoch = 0, hms = [], ymd_hms = []\<rparr>
      \<lparr>current_stage := u ''save'', transcribe_percent := 60\<rparr>) = 90"
  using compute_progress_blend
    [of "init \<lparr>epoch = 0, hms = [], ymd_hms = []\<rparr>
      \<lparr>current_stage := u ''save'', transcribe_percent := 60\<rparr>"]
  by (simp add: u_def)

lemma write_status_fields [simp]:
  "start_time (write_status c pm) = start_time pm"
  "filename (write_status c pm) = filename pm"
  "filesize_mb (write_status c pm) = filesize_mb pm"
  "duration_sec (write_status c pm) = duration_sec pm"
  "current_stage (write_status c pm) = current_stage pm"
  "detail (write_status c pm) = detail pm"
  "transcribe_percent (write_status c pm) = transcribe_percent pm"
  "error (write_status c pm) = error pm"
  "history (write_status c pm) = history pm"
  "total_completed (write_status c pm) = total_completed pm"
  "total_failed (write_status c pm) = total_failed pm"
  "queue (write_status c pm) = queue pm"
  "status_file (write_status c pm) = status_file pm @ [status_of c pm]"
  by (simp_all add: write_status_def)

text \<open>
  C8. \<open>reset_to_idle\<close> puts every per-task field back to its zero value (stage idle, empty
  file name, size 0, duration 0, empty detail, sub-percent 0, empty error, no start time) and
  leaves the completed and failed counters, the queue and the history as they were.
\<close>

theorem reset_to_idle_frame:
  "current_stage (reset_to_idle c pm) = u ''idle''
   \<and> filename (reset_to_idle c pm) = []
   \<and> filesize_mb (reset_to_idle c pm) = 0
   \<and> duration_sec (reset_to_idle c pm) = 0
   \<and> detail (reset_to_idle c pm) = []
   \<and> transcribe_percent (reset_to_idle c pm) = 0
   \<and> error (reset_to_idle c pm) = []
   \<and> start_time (reset_to_idle c pm) = None
   \<and> total_completed (reset_to_idle c pm) = total_completed pm
   \<and> total_failed (reset_to_idle c pm) = total_failed pm
   \<and> queue (reset_to_idle c pm) = queue pm
   \<and> history (reset_to_idle c pm) = history pm"
  by (simp add: reset_to_idle_def)

theorem reset_to_idle_frame_witness:
  "total_failed (reset_to_idle \<lparr>epoch = 9, hms = [], ymd_hms = []\<rparr>
      (finish \<lparr>epoch = 7, hms = [], ymd_hms = []\<rparr> False [] 0 0
        (init \<lparr>epoch = 0, hms = [], ymd_hms = []\<rparr>))) = 1
   \<and> current_stage (reset_to_idle \<lparr>epoch = 9, hms = [], ymd_hms = []\<rparr>
      (finish \<lparr>epoch = 7, hms = [], ymd_hms = []\<rparr> False [] 0 0
        (init \<lparr>epoch = 0, hms = [], ymd_hms = []\<rparr>))) = u ''idle''"
  using reset_to_idle_frame
    [of "\<lparr>epoch = 9, hms = [], ymd_hms = []\<rparr>"
        "finish \<lparr>epoch = 7, hms = [], ymd_hms = []\<rparr> False [] 0 0
           (init \<lparr>epoch = 0, hms = [], ymd_hms = []\<rparr>)"]
  by (simp add: finish_def init_def Let_def)

text \<open>
  C10. \<open>remove_from_queue\<close> removes every queue entry whose file name equals the given
  name, not only the first one, and keeps the other entries in their order: when two tasks
  with the same base name have been enqueued, both entries are gone after one call.
\<close>

theorem remove_from_queue_all:
  "queue (remove_from_queue c fname pm) = filter (\<lambda>item. q_filename item \<noteq> fname) (queue pm)
   \<and> (\<forall>item \<in> set (queue (remove_from_queue c fname pm)). q_filename item \<noteq> fname)
   \<and> (\<forall>item \<in> set (queue pm). q_filename item \<noteq> fname
         \<longrightarrow> item \<in> set (queue (remove_from_queue c fname pm)))
   \<and> queue (remove_from_queue c fname
        (add_to_queue c2 fname size2 (add_to_queue c1 fname size1 pm))) =
      filter (\<lambda>item. q_filename item \<noteq> fname) (queue pm)"
  by (simp add: remove_from_queue_def add_to_queue_def)

theorem remove_from_queue_all_witness:
  "queue (remove_from_queue \<lparr>epoch = 3, hms = [], ymd_hms = []\<rparr> (u ''a.mp4'')
     (add_to_queue \<lparr>epoch = 2, hms = [], ymd_hms = []\<rparr> (u ''a.mp4'') 2
       (add_to_queue \<lparr>epoch = 1, hms = [], ymd_hms = []\<rparr> (u ''b.mp4'') 1
         (add_to_queue \<lparr>epoch = 1, hms = [], ymd_hms = []\<rparr> (u ''a.mp4'') 1
           (init \<lparr>epoch = 0, hms = [], ymd_hms = []\<rparr>))))) =
   [\<lparr>q_filename = u ''b.mp4'', q_filesize_mb = 1, q_queued_at = []\<rparr>]"
proof -
  have r: "round1 1 = 1"
    by (simp add: round1_def round_half_even_def Let_def)
  show ?thesis
    using remove_from_queue_all
      [of "\<lparr>epoch = 3, hms = [], ymd_hms = []\<rparr>" "u ''a.mp4''"
          "add_to_queue \<lparr>epoch = 2, hms = [], ymd_hms = []\<rparr> (u ''a.mp4'') 2
            (add_to_queue \<lparr>epoch = 1, hms = [], ymd_hms = []\<rparr> (u ''b.mp4'') 1
              (add_to_queue \<lparr>epoch = 1, hms = [], ymd_hms = []\<rparr> (u ''a.mp4'') 1
                (init \<lparr>epoch = 0, hms = [], ymd_hms = []\<rparr>)))"]
    by (simp add: add_to_queue_def init_def u_def r)
qed

section \<open>Properties of the confirmation dialog\<close>

text \<open>
  C9. \<open>ask_confirm\<close> is true exactly when the dialog run completes and its output, as
  \<open>_run_osascript\<close> returns it (white space around it stripped), is the label of the
  accepting button. On a timeout of the subprocess and on any other failure to run it,
  \<open>_run_osascript\<close> returns the empty string, so \<open>ask_confirm\<close> is false: no answer in
  time means decline.
\<close>

theorem ask_confirm_default_decline:
  "(ask_confirm dialog \<longleftrightarrow> run_osascript dialog = ACCEPT_BUTTON)
   \<and> (ask_confirm dialog \<longleftrightarrow> (\<exists>out. dialog = Completed out \<and> strip out = ACCEPT_BUTTON))
   \<and> ask_confirm (Completed ACCEPT_BUTTON)
   \<and> run_osascript TimeoutExpired = []
   \<and> run_osascript RunFailed = []
   \<and> \<not> ask_confirm TimeoutExpired
   \<and> \<not> ask_confirm RunFailed
   \<and> \<not> ask_confirm (Completed [])"
proof -
  have s: "strip ACCEPT_BUTTON = ACCEPT_BUTTON"
    by (simp add: strip_def ACCEPT_BUTTON_def py_isspace_def)
  have e: "strip [] = []"
    by (simp add: strip_def)
  show ?thesis
    by (cases dialog) (simp_all add: ask_confirm_def run_osascript_def s e, simp_all add: ACCEPT_BUTTON_def)
qed

theorem ask_confirm_default_decline_witness:
  "ask_confirm (Completed [36716, 24405, 10]) \<and> \<not> ask_confirm (Completed [36339, 36807, 10])"
proof -
  have a: "strip [36716, 24405, 10] = ACCEPT_BUTTON"
    by (simp add: strip_def ACCEPT_BUTTON_def py_isspace_def)
  have b: "strip [36339, 36807, 10] \<noteq> ACCEPT_BUTTON"
    by (simp add: strip_def ACCEPT_BUTTON_def py_isspace_def)
  show ?thesis
    using ask_confirm_default_decline [of "Completed [36716, 24405, 10]"]
          ask_confirm_default_decline [of "Completed [36339, 36807, 10]"] a b
    by (simp add: run_osascript_def)
qed

section \<open>Properties of the stability wait\<close>

text \<open>
  The loop from round \<open>i\<close> on, with \<open>w\<close> seconds already waited and \<open>p\<close> the size seen
  last: it answers true exactly when some round \<open>k\<close> still inside the time limit sees a
  positive size equal to the one before it, all rounds up to \<open>k\<close> having seen a size.
\<close>

lemma wait_loop_char:
  "wait_loop polls i w p = Inr True \<longleftrightarrow>
    (\<exists>k\<ge>i. w + 2 * int (k - i) < 300 \<and> (\<forall>j. i \<le> j \<and> j \<le> k \<longrightarrow> (\<exists>n. polls j = Size n)) \<and>
       (\<exists>n. polls k = Size n \<and> 0 < n \<and> (if k = i then int n = p else polls (k - 1) = Size n)))"
proof (induction polls i w p rule: wait_loop.induct)
  case (1 polls i waited prev_size)
  show ?case
  proof (cases "waited < 300")
    case False
    then show ?thesis
      by (subst wait_loop.simps) (auto simp: FILE_STABLE_MAX_WAIT_def)
  next
    case True
    show ?thesis
    proof (cases "polls i")
      case Missing
      then show ?thesis using True
        by (subst wait_loop.simps) (auto simp: FILE_STABLE_MAX_WAIT_def)
    next
      case ExistsError
      then show ?thesis using True
        by (subst wait_loop.simps) (auto simp: FILE_STABLE_MAX_WAIT_def)
    next
      case StatError
      then show ?thesis using True
        by (subst wait_loop.simps) (auto simp: FILE_STABLE_MAX_WAIT_def)
    next
      case (Size n)
      show ?thesis
      proof (cases "0 < int n \<and> int n = prev_size")
        case st: True
        have L: "wait_loop polls i waited prev_size = Inr True"
          using True Size st by (subst wait_loop.simps) (simp add: FILE_STABLE_MAX_WAIT_def)
        have R: "i \<le> i \<and> waited + 2 * int (i - i) < 300 \<and> (\<forall>j. i \<le> j \<and> j \<le> i \<longrightarrow> (\<exists>n. polls j = Size n)) \<and>
       (\<exists>n. polls i = Size n \<and> 0 < n \<and> (if i = i then int n = prev_size else polls (i - 1) = Size n))"
          using True Size st by auto
        show ?thesis using L R by blast
      next
        case nst: False
        have IH: "wait_loop polls (Suc i) (waited + 2) (int n) = Inr True \<longleftrightarrow>
          (\<exists>k\<ge>Suc i. waited + 2 + 2 * int (k - Suc i) < 300 \<and> (\<forall>j. Suc i \<le> j \<and> j \<le> k \<longrightarrow> (\<exists>n. polls j = Size n)) \<and>
       (\<exists>m. polls k = Size m \<and> 0 < m \<and> (if k = Suc i then int m = int n else polls (k - 1) = Size m)))"
          using "1.IH"[OF _ Size] True nst by (simp add: FILE_STABLE_MAX_WAIT_def FILE_STABLE_CHECK_INTERVAL_def)
        have L: "wait_loop polls i waited prev_size = wait_loop polls (Suc i) (waited + 2) (int n)"
          using True Size nst by (subst wait_loop.simps) (auto simp add: FILE_STABLE_MAX_WAIT_def FILE_STABLE_CHECK_INTERVAL_def)
        show ?thesis unfolding L IH
        proof
          assume "\<exists>k\<ge>Suc i. waited + 2 + 2 * int (k - Suc i) < 300 \<and> (\<forall>j. Suc i \<le> j \<and> j \<le> k \<longrightarrow> (\<exists>n. polls j = Size n)) \<and>
       (\<exists>m. polls k = Size m \<and> 0 < m \<and> (if k = Suc i then int m = int n else polls (k - 1) = Size m))"
          then obtain k m where k: "Suc i \<le> k" "waited + 2 + 2 * int (k - Suc i) < 300"
            "\<forall>j. Suc i \<le> j \<and> j \<le> k \<longrightarrow> (\<exists>n. polls j = Size n)"
            "polls k = Size m" "0 < m" "if k = Suc i then int m = int n else polls (k - 1) = Size m" by blast
          have a: "waited + 2 * int (k - i) < 300" using k(1,2) by (simp add: Suc_diff_le)
          have b: "\<forall>j. i \<le> j \<and> j \<le> k \<longrightarrow> (\<exists>n. polls j = Size n)"
            using k(3) Size by (metis Suc_leI le_neq_implies_less)
          have c: "polls (k - 1) = Size m" using k(6) Size k(1) by (auto split: if_splits)
          show "\<exists>k\<ge>i. waited + 2 * int (k - i) < 300 \<and> (\<forall>j. i \<le> j \<and> j \<le> k \<longrightarrow> (\<exists>n. polls j = Size n)) \<and>
       (\<exists>n. polls k = Size n \<and> 0 < n \<and> (if k = i then int n = prev_size else polls (k - 1) = Size n))"
            using a b c k(1,4,5) by (intro exI[of _ k]) auto
        next
          assume "\<exists>k\<ge>i. waited + 2 * int (k - i) < 300 \<and> (\<forall>j. i \<le> j \<and> j \<le> k \<longrightarrow> (\<exists>n. polls j = Size n)) \<and>
       (\<exists>n. polls k = Size n \<and> 0 < n \<and> (if k = i then int n = prev_size else polls (k - 1) = Size n))"
          then obtain k m where k: "i \<le> k" "waited + 2 * int (k - i) < 300"
            "\<forall>j. i \<le> j \<and> j \<le> k \<longrightarrow> (\<exists>n. polls j = Size n)"
            "polls k = Size m" "0 < m" "if k = i then int m = prev_size else polls (k - 1) = Size m" by blast
          have ki: "k \<noteq> i" using k(4,5,6) Size nst by auto
          then have k1: "Suc i \<le> k" using k(1) by simp
          have a: "waited + 2 + 2 * int (k - Suc i) < 300" using k(2) k1 by (simp add: Suc_diff_le)
          have c: "if k = Suc i then int m = int n else polls (k - 1) = Size m"
            using k(6) ki Size by auto
          show "\<exists>k\<ge>Suc i. waited + 2 + 2 * int (k - Suc i) < 300 \<and> (\<forall>j. Suc i \<le> j \<and> j \<le> k \<longrightarrow> (\<exists>n. polls j = Size n)) \<and>
       (\<exists>m. polls k = Size m \<and> 0 < m \<and> (if k = Suc i then int m = int n else polls (k - 1) = Size m))"
            using a c k1 k(3,4,5) by (intro exI[of _ k]) auto
        qed
      qed
    qed
  qed
qed

text \<open>
  When \<open>path.exists()\<close> raises at no round, the loop returns a truth value.
\<close>

lemma wait_loop_returns:
  "(\<And>j. polls j \<noteq> ExistsError) \<Longrightarrow> \<exists>b. wait_loop polls i w p = Inr b"
proof (induction polls i w p rule: wait_loop.induct)
  case (1 polls i waited prev_size)
  show ?case
  proof (cases "waited < FILE_STABLE_MAX_WAIT")
    case False
    then show ?thesis by (subst wait_loop.simps) auto
  next
    case True
    show ?thesis
    proof (cases "polls i")
      case Missing
      then show ?thesis using True by (subst wait_loop.simps) auto
    next
      case ExistsError
      then show ?thesis using "1.prems" by blast
    next
      case StatError
      then show ?thesis using True by (subst wait_loop.simps) auto
    next
      case (Size n)
      show ?thesis
      proof (cases "0 < int n \<and> int n = prev_size")
        case st: True
        then show ?thesis using True Size by (subst wait_loop.simps) auto
      next
        case nst: False
        have "\<exists>b. wait_loop polls (Suc i) (waited + FILE_STABLE_CHECK_INTERVAL) (int n) = Inr b"
          using "1.IH" [OF True Size nst] "1.prems" by blast
        then show ?thesis using True Size nst by (subst wait_loop.simps) auto
      qed
    qed
  qed
qed

text \<open>
  What holds of the claim on the code: \<open>_wait_for_stable\<close> returns true exactly when, at
  some round that starts before \<open>FILE_STABLE_MAX_WAIT\<close> seconds have been waited, the size
  sample is positive and equal to the sample of the round before, every round up to there
  having found the file and read its size; and when \<open>path.exists()\<close> raises at no round, it
  returns false in every other case: a missing path, a raising \<open>stat\<close>, or the waiting
  time used up.
\<close>

lemma wait_for_stable_outcomes:
  "(wait_for_stable polls = Inr True \<longleftrightarrow>
      (\<exists>k n. 0 < k \<and> int k * FILE_STABLE_CHECK_INTERVAL < FILE_STABLE_MAX_WAIT
         \<and> (\<forall>j\<le>k. \<exists>m. polls j = Size m)
         \<and> polls k = Size n \<and> polls (k - 1) = Size n \<and> 0 < n))
   \<and> ((\<forall>j. polls j \<noteq> ExistsError) \<longrightarrow>
        (wait_for_stable polls = Inr False \<longleftrightarrow>
          \<not> (\<exists>k n. 0 < k \<and> int k * FILE_STABLE_CHECK_INTERVAL < FILE_STABLE_MAX_WAIT
         \<and> (\<forall>j\<le>k. \<exists>m. polls j = Size m)
         \<and> polls k = Size n \<and> polls (k - 1) = Size n \<and> 0 < n)))"
proof -
  have char: "wait_for_stable polls = Inr True \<longleftrightarrow>
      (\<exists>k n. 0 < k \<and> int k * 2 < 300 \<and> (\<forall>j\<le>k. \<exists>m. polls j = Size m)
         \<and> polls k = Size n \<and> polls (k - 1) = Size n \<and> 0 < n)"
    unfolding wait_for_stable_def wait_loop_char
  proof
    assume "\<exists>k\<ge>0. 0 + 2 * int (k - 0) < 300 \<and> (\<forall>j. 0 \<le> j \<and> j \<le> k \<longrightarrow> (\<exists>n. polls j = Size n)) \<and>
       (\<exists>n. polls k = Size n \<and> 0 < n \<and> (if k = 0 then int n = - 1 else polls (k - 1) = Size n))"
    then obtain k n where k: "2 * int k < 300" "\<forall>j. j \<le> k \<longrightarrow> (\<exists>n. polls j = Size n)"
      "polls k = Size n" "0 < n" "if k = 0 then int n = - 1 else polls (k - 1) = Size n"
      by auto
    have "k \<noteq> 0" using k(5) by (auto split: if_splits)
    then show "\<exists>k n. 0 < k \<and> int k * 2 < 300 \<and> (\<forall>j\<le>k. \<exists>m. polls j = Size m)
         \<and> polls k = Size n \<and> polls (k - 1) = Size n \<and> 0 < n"
      using k by (intro exI[of _ k] exI[of _ n]) auto
  next
    assume "\<exists>k n. 0 < k \<and> int k * 2 < 300 \<and> (\<forall>j\<le>k. \<exists>m. polls j = Size m)
         \<and> polls k = Size n \<and> polls (k - 1) = Size n \<and> 0 < n"
    then obtain k n where k: "0 < k" "int k * 2 < 300" "\<forall>j\<le>k. \<exists>m. polls j = Size m"
      "polls k = Size n" "polls (k - 1) = Size n" "0 < n"
      by blast
    have "0 \<le> k \<and> 0 + 2 * int (k - 0) < 300 \<and> (\<forall>j. 0 \<le> j \<and> j \<le> k \<longrightarrow> (\<exists>n. polls j = Size n)) \<and>
       (\<exists>n. polls k = Size n \<and> 0 < n \<and> (if k = 0 then int n = - 1 else polls (k - 1) = Size n))"
      using k by auto
    then show "\<exists>k\<ge>0. 0 + 2 * int (k - 0) < 300 \<and> (\<forall>j. 0 \<le> j \<and> j \<le> k \<longrightarrow> (\<exists>n. polls j = Size n)) \<and>
       (\<exists>n. polls k = Size n \<and> 0 < n \<and> (if k = 0 then int n = - 1 else polls (k - 1) = Size n))"
      by blast
  qed
  have ret: "wait_for_stable polls = Inr False \<longleftrightarrow> wait_for_stable polls \<noteq> Inr True"
    if "\<forall>j. polls j \<noteq> ExistsError"
  proof -
    from that obtain b where "wait_for_stable polls = Inr b"
      unfolding wait_for_stable_def using wait_loop_returns [of polls 0 0 "- 1"] by blast
    then show ?thesis by simp
  qed
  show ?thesis
    unfolding FILE_STABLE_CHECK_INTERVAL_def FILE_STABLE_MAX_WAIT_def
    using char ret by blast
qed

text \<open>
  C3. The claim's \<open>false\<close> on an I/O error is not what the code does when the error
  strikes in \<open>path.exists()\<close>: a file that showed 5 bytes at the first round and whose
  directory can no longer be searched at the second makes \<open>_wait_for_stable\<close> raise
  \<open>OSError\<close>. The same error raised by \<open>path.stat()\<close> inside the \<open>try\<close>, and a missing
  path, give \<open>False\<close> as the claim says, and two equal positive samples give \<open>True\<close>.
\<close>

theorem wait_for_stable_exists_raises:
  "wait_for_stable (\<lambda>i. if i = 0 then Size 5 else ExistsError) = Inl OSError
   \<and> wait_for_stable (\<lambda>i. if i = 0 then Size 5 else StatError) = Inr False
   \<and> wait_for_stable (\<lambda>i. if i = 0 then Size 5 else Missing) = Inr False
   \<and> wait_for_stable (\<lambda>i. if i = 0 then Size 5 else Size 7) = Inr True"
  by (simp add: wait_for_stable_def wait_loop.simps
      FILE_STABLE_MAX_WAIT_def FILE_STABLE_CHECK_INTERVAL_def)
section \<open>Properties of the numbering\<close>

lemma show_nat_nonempty: "show_nat n \<noteq> []"
  by (subst show_nat.simps) simp

lemma show_nat_digits: "c \<in> set (show_nat n) \<Longrightarrow> 48 \<le> c \<and> c \<le> 57"
proof (induction n rule: show_nat.induct)
  case (1 n)
  show ?case
  proof (cases "n < 10")
    case True
    with "1.prems" show ?thesis by (subst (asm) show_nat.simps) auto
  next
    case False
    with "1.prems" have "c \<in> set (show_nat (n div 10)) \<or> c = 48 + int (n mod 10)"
      by (subst (asm) show_nat.simps) auto
    then show ?thesis
    proof
      assume "c \<in> set (show_nat (n div 10))"
      then show ?thesis using "1.IH"[OF False] by simp
    next
      assume "c = 48 + int (n mod 10)"
      moreover have "n mod 10 < 10" by simp
      ultimately show ?thesis by linarith
    qed
  qed
qed

lemma max_default_Max:
  assumes "xs \<noteq> []"
  shows "max_default xs d = Max (set xs)"
proof (cases xs)
  case Nil
  then show ?thesis using assms by simp
next
  case (Cons y ys)
  have "Max (set (y # ys)) = fold max ys y" by (rule Max.set_eq_fold)
  then show ?thesis using Cons by (simp add: max_default_def)
qed

lemma prefix_not_fail: "\<not> startswith (name_prefix d lang @ s) (u ''fail_'')"
proof -
  obtain c cs where sn: "show_nat (year d) = c # cs"
    using show_nat_nonempty by (cases "show_nat (year d)") auto
  then have "48 \<le> c \<and> c \<le> 57" using show_nat_digits[of c "year d"] by simp
  then show ?thesis
    by (auto simp add: startswith_def name_prefix_def sn u_def)
qed

lemma startswith_iff: "startswith x p \<longleftrightarrow> (\<exists>s. x = p @ s)"
proof
  assume "startswith x p"
  then have "x = p @ drop (length p) x"
    by (metis append_take_drop_id startswith_def)
  then show "\<exists>s. x = p @ s" ..
next
  assume "\<exists>s. x = p @ s"
  then show "startswith x p" by (auto simp add: startswith_def)
qed

lemma entry_index_char:
  "entry_index (name_prefix d lang) f = Some i \<longleftrightarrow>
     (\<exists>s. (path_stem f = name_prefix d lang @ s \<or> path_stem f = u ''fail_'' @ name_prefix d lang @ s)
          \<and> py_int s = Some i)"
proof -
  let ?p = "name_prefix d lang"
  have fl: "length (u ''fail_'') = 5" by (simp add: u_def)
  show ?thesis
  proof (cases "startswith (path_stem f) (u ''fail_'')")
    case True
    then obtain r where r: "path_stem f = u ''fail_'' @ r"
      using startswith_iff by blast
    have no: "path_stem f \<noteq> ?p @ s" for s using True prefix_not_fail by metis
    have e: "entry_index ?p f = (if startswith r ?p then py_int (drop (length ?p) r) else None)"
      using True r fl by (simp add: entry_index_def Let_def)
    show ?thesis
    proof
      assume a: "entry_index ?p f = Some i"
      then have sw: "startswith r ?p" using e by (simp split: if_splits)
      then obtain s where s: "r = ?p @ s" using startswith_iff by blast
      have "py_int s = Some i" using a e sw s by simp
      then show "\<exists>s. (path_stem f = ?p @ s \<or> path_stem f = u ''fail_'' @ ?p @ s) \<and> py_int s = Some i"
        using r s by blast
    next
      assume "\<exists>s. (path_stem f = ?p @ s \<or> path_stem f = u ''fail_'' @ ?p @ s) \<and> py_int s = Some i"
      then obtain s where s: "path_stem f = u ''fail_'' @ ?p @ s" "py_int s = Some i"
        using no by blast
      then have "r = ?p @ s" using r by simp
      then show "entry_index ?p f = Some i" using e s(2) by (simp add: startswith_def)
    qed
  next
    case False
    then have no: "path_stem f \<noteq> u ''fail_'' @ ?p @ s" for s
      using startswith_iff by blast
    have e: "entry_index ?p f = (if startswith (path_stem f) ?p then py_int (drop (length ?p) (path_stem f)) else None)"
      using False by (simp add: entry_index_def Let_def)
    show ?thesis
    proof
      assume a: "entry_index ?p f = Some i"
      then have sw: "startswith (path_stem f) ?p" using e by (simp split: if_splits)
      then obtain s where s: "path_stem f = ?p @ s" using startswith_iff by blast
      have "py_int s = Some i" using a e sw s by simp
      then show "\<exists>s. (path_stem f = ?p @ s \<or> path_stem f = u ''fail_'' @ ?p @ s) \<and> py_int s = Some i"
        using s by blast
    next
      assume "\<exists>s. (path_stem f = ?p @ s \<or> path_stem f = u ''fail_'' @ ?p @ s) \<and> py_int s = Some i"
      then obtain s where s: "path_stem f = ?p @ s" "py_int s = Some i"
        using no by blast
      then show "entry_index ?p f = Some i" using e by (simp add: startswith_def)
    qed
  qed
qed

lemma existing_set:
  "set (List.map_filter (entry_index p) fs) = {i. \<exists>f \<in> set fs. entry_index p f = Some i}"
  by (induction fs) (auto split: option.splits)

lemma get_next_index_none:
  assumes "\<forall>f \<in> set fs. entry_index (name_prefix d lang) f = None"
  shows "get_next_index fs d lang = 1"
proof -
  have "set (List.map_filter (entry_index (name_prefix d lang)) fs) = {}"
    using assms by (simp add: existing_set)
  then have "List.map_filter (entry_index (name_prefix d lang)) fs = []" by simp
  then show ?thesis by (simp add: get_next_index_def max_default_def)
qed

lemma get_next_index_Max:
  assumes "f \<in> set fs" "entry_index (name_prefix d lang) f = Some i"
  shows "get_next_index fs d lang = Max {i. \<exists>f \<in> set fs. entry_index (name_prefix d lang) f = Some i} + 1"
proof -
  have "i \<in> set (List.map_filter (entry_index (name_prefix d lang)) fs)"
    using assms by (auto simp add: existing_set)
  then have "List.map_filter (entry_index (name_prefix d lang)) fs \<noteq> []" by auto
  then show ?thesis
    by (simp add: get_next_index_def max_default_Max existing_set)
qed

lemma example_name:
  "generate_standard_name (map u [''2026_1_1_zh_1'', ''2026_1_1_zh_2'', ''fail_2026_1_1_zh_5''])
     (u ''zh'') \<lparr>year = 2026, month = 1, day = 1\<rparr> = u ''2026_1_1_zh_6''"
  by code_simp


text \<open>
  C4. The next index is one more than the maximum of the indices parsed from the entries of
  the managed directory: an entry counts when its stem, after one leading \<open>fail_\<close> is
  dropped, starts with \<open>{year}_{month}_{day}_{lang}_\<close> and the rest parses as an integer
  (entries whose rest does not parse are ignored); with no such entry the maximum counts as
  0. The generated name is the prefix followed by that index; with \<open>2026_1_1_zh_1\<close>,
  \<open>2026_1_1_zh_2\<close> and \<open>fail_2026_1_1_zh_5\<close> present, the next name for \<open>zh\<close> on that
  date is \<open>2026_1_1_zh_6\<close>.
\<close>

theorem next_index_after_maximum:
  "(entry_index (name_prefix d lang) f = Some i \<longleftrightarrow>
      (\<exists>s. (path_stem f = name_prefix d lang @ s
             \<or> path_stem f = u ''fail_'' @ name_prefix d lang @ s)
           \<and> py_int s = Some i))
   \<and> ((\<forall>g \<in> set video_dir. entry_index (name_prefix d lang) g = None)
        \<longrightarrow> get_next_index video_dir d lang = 0 + 1)
   \<and> ((\<exists>g \<in> set video_dir. entry_index (name_prefix d lang) g \<noteq> None)
        \<longrightarrow> get_next_index video_dir d lang =
            Max {j. \<exists>g \<in> set video_dir. entry_index (name_prefix d lang) g = Some j} + 1)
   \<and> (\<forall>g \<in> set video_dir. \<forall>j. entry_index (name_prefix d lang) g = Some j
        \<longrightarrow> j < get_next_index video_dir d lang)
   \<and> generate_standard_name video_dir lang d =
       name_prefix d lang @ show_int (get_next_index video_dir d lang)
   \<and> generate_standard_name
        (map u [''2026_1_1_zh_1'', ''2026_1_1_zh_2'', ''fail_2026_1_1_zh_5''])
        (u ''zh'') \<lparr>year = 2026, month = 1, day = 1\<rparr> = u ''2026_1_1_zh_6''"
proof -
  let ?p = "name_prefix d lang"
  let ?S = "{j. \<exists>g \<in> set video_dir. entry_index ?p g = Some j}"
  have fin: "finite ?S"
    using existing_set [of ?p video_dir] by (metis List.finite_set)
  have some: "get_next_index video_dir d lang = Max ?S + 1"
    if "\<exists>g \<in> set video_dir. entry_index ?p g \<noteq> None"
    using that get_next_index_Max by blast
  have bound: "j < get_next_index video_dir d lang"
    if g: "g \<in> set video_dir" "entry_index ?p g = Some j" for g j
  proof -
    have "j \<in> ?S" using g by blast
    then have "j \<le> Max ?S" using fin by simp
    moreover have "get_next_index video_dir d lang = Max ?S + 1"
      using g get_next_index_Max by blast
    ultimately show ?thesis by simp
  qed
  have name: "generate_standard_name video_dir lang d =
       ?p @ show_int (get_next_index video_dir d lang)"
    by (simp add: generate_standard_name_def name_prefix_def Let_def)
  show ?thesis
    using entry_index_char [of d lang f i] get_next_index_none [of video_dir d lang]
      some bound name example_name
    by simp
qed

theorem next_index_after_maximum_witness:
  "entry_index (name_prefix \<lparr>year = 2026, month = 1, day = 1\<rparr> (u ''zh''))
      (u ''fail_2026_1_1_zh_5.mp4'') = Some 5
   \<and> 5 < get_next_index
        (map u [''2026_1_1_zh_1.mp4'', ''fail_2026_1_1_zh_5.mp4'', ''2026_1_1_zh_x.mp4''])
        \<lparr>year = 2026, month = 1, day = 1\<rparr> (u ''zh'')"
proof -
  let ?d = "\<lparr>year = 2026, month = 1, day = 1\<rparr>"
  let ?fs = "map u [''2026_1_1_zh_1.mp4'', ''fail_2026_1_1_zh_5.mp4'', ''2026_1_1_zh_x.mp4'']"
  have e: "entry_index (name_prefix ?d (u ''zh'')) (u ''fail_2026_1_1_zh_5.mp4'') = Some 5"
    by code_simp
  have m: "u ''fail_2026_1_1_zh_5.mp4'' \<in> set ?fs"
    by simp
  show ?thesis
    using next_index_after_maximum [of ?d "u ''zh''" "u ''fail_2026_1_1_zh_5.mp4''" 5 ?fs] e m
    by blast
qed

section \<open>Properties of the normalisation\<close>

lemma try_map_sentences:
  "try_map (sentence_segment r) (map PDict sds) =
     Inr (map (\<lambda>sd. \<lparr>seg_start = dict_get sd (u ''start'') (PInt 0),
                      seg_end = dict_get sd (u ''end'') (PInt 0),
                      seg_text = dict_get sd (u ''text'') (PStr []),
                      seg_speaker = speaker_of r (dict_get sd (u ''spk'') (PStr []))\<rparr>) sds)"
  by (induction sds) (simp_all add: sentence_segment_def)

lemma rich_item:
  assumes "map_of d (u ''sentence_info'') = Some (PList (map PDict sds))" "sds \<noteq> []"
  shows "item_segments r (PDict d) =
     Inr (map (\<lambda>sd. \<lparr>seg_start = dict_get sd (u ''start'') (PInt 0),
                      seg_end = dict_get sd (u ''end'') (PInt 0),
                      seg_text = dict_get sd (u ''text'') (PStr []),
                      seg_speaker = speaker_of r (dict_get sd (u ''spk'') (PStr []))\<rparr>) sds)"
  using assms by (simp add: item_segments_def dict_get_def Let_def try_map_sentences)

lemma spans_segments:
  "List.map_filter (timestamp_segment text) (enumerate n (map (\<lambda>se. PList [fst se, snd se]) spans)) =
     map (\<lambda>ise. \<lparr>seg_start = fst (snd ise), seg_end = snd (snd ise),
                   seg_text = (if fst ise = 0 then text else PStr []),
                   seg_speaker = PStr []\<rparr>) (enumerate n spans)"
  by (induction spans arbitrary: n) (simp_all add: timestamp_segment_def Let_def)

lemma timed_item:
  assumes "\<not> truthy (dict_get d (u ''sentence_info'') (PList []))"
    "map_of d (u ''text'') = Some (PStr t)" "t \<noteq> []"
    "map_of d (u ''timestamp'') = Some (PList (map (\<lambda>se. PList [fst se, snd se]) spans))"
    "spans \<noteq> []"
  shows "item_segments r (PDict d) =
     Inr (map (\<lambda>ise. \<lparr>seg_start = fst (snd ise), seg_end = snd (snd ise),
                   seg_text = (if fst ise = 0 then PStr t else PStr []),
                   seg_speaker = PStr []\<rparr>) (enumerate 0 spans))"
  using assms by (simp add: item_segments_def dict_get_def Let_def spans_segments)

lemma bare_item:
  assumes "\<not> truthy (dict_get d (u ''sentence_info'') (PList []))"
    "map_of d (u ''text'') = Some (PStr t)" "t \<noteq> []"
    "map_of d (u ''timestamp'') = None"
  shows "item_segments r (PDict d) =
     Inr [\<lparr>seg_start = PInt 0, seg_end = PInt 0, seg_text = PStr t, seg_speaker = PStr []\<rparr>]"
  using assms by (simp add: item_segments_def dict_get_def Let_def)

lemma try_map_all:
  assumes "\<forall>x \<in> set xs. f x = Inr (g x)"
  shows "try_map f xs = Inr (map g xs)"
  using assms by (induction xs) simp_all

lemma parse_concat:
  assumes "items \<noteq> []" "\<forall>it \<in> set items. item_segments r it = Inr (g it)"
  shows "parse_funasr_result r (PList items) = Inr (concat (map g items))"
proof -
  have "try_map (item_segments r) items = Inr (map g items)"
    using assms(2) by (rule try_map_all)
  then show ?thesis using assms(1) by (simp add: parse_funasr_result_def)
qed

lemma speaker_cases:
  "speaker_of r (dict_get sd (u ''spk'') (PStr [])) =
     (case map_of sd (u ''spk'') of
        None \<Rightarrow> PStr []
      | Some (PInt n) \<Rightarrow> PStr (u ''spk'' @ show_int n)
      | Some v \<Rightarrow> speaker_of r v)"
  by (simp add: dict_get_def speaker_of_def split: option.splits pyval.splits)


text \<open>
  C7. For an item in one of the three shapes the normalisation gives uniform segments.
  (a) With per-sentence info, one segment per sentence, where a missing \<open>start\<close> or \<open>end\<close>
  is 0, a missing \<open>text\<close> or speaker is the empty string, and an integer speaker \<open>n\<close> is
  rendered \<open>spk{n}\<close>. (b) With flat text and a list of timestamp spans, one segment per
  span, the text attached to the first span only and the speaker empty. (c) With bare text,
  one segment with start and end 0 and empty speaker. The result of a list of items is the
  concatenation of what its items give.
\<close>

theorem parse_funasr_shapes:
  "(map_of d (u ''sentence_info'') = Some (PList (map PDict sds)) \<and> sds \<noteq> [] \<longrightarrow>
      item_segments render (PDict d) =
        Inr (map (\<lambda>sd.
          \<lparr>seg_start = (case map_of sd (u ''start'') of None \<Rightarrow> PInt 0 | Some v \<Rightarrow> v),
           seg_end = (case map_of sd (u ''end'') of None \<Rightarrow> PInt 0 | Some v \<Rightarrow> v),
           seg_text = (case map_of sd (u ''text'') of None \<Rightarrow> PStr [] | Some v \<Rightarrow> v),
           seg_speaker =
             (case map_of sd (u ''spk'') of
                None \<Rightarrow> PStr []
              | Some (PInt n) \<Rightarrow> PStr (u ''spk'' @ show_int n)
              | Some v \<Rightarrow> speaker_of render v)\<rparr>) sds))
   \<and> (\<not> truthy (dict_get d (u ''sentence_info'') (PList []))
        \<and> map_of d (u ''text'') = Some (PStr t) \<and> t \<noteq> []
        \<and> map_of d (u ''timestamp'') = Some (PList (map (\<lambda>se. PList [fst se, snd se]) spans))
        \<and> spans \<noteq> [] \<longrightarrow>
      item_segments render (PDict d) =
        Inr (map (\<lambda>ise.
          \<lparr>seg_start = fst (snd ise), seg_end = snd (snd ise),
           seg_text = (if fst ise = 0 then PStr t else PStr []),
           seg_speaker = PStr []\<rparr>) (enumerate 0 spans)))
   \<and> (\<not> truthy (dict_get d (u ''sentence_info'') (PList []))
        \<and> map_of d (u ''text'') = Some (PStr t) \<and> t \<noteq> []
        \<and> map_of d (u ''timestamp'') = None \<longrightarrow>
      item_segments render (PDict d) =
        Inr [\<lparr>seg_start = PInt 0, seg_end = PInt 0, seg_text = PStr t,
              seg_speaker = PStr []\<rparr>])
   \<and> (items \<noteq> [] \<and> (\<forall>it \<in> set items. item_segments render it = Inr (g it)) \<longrightarrow>
      parse_funasr_result render (PList items) = Inr (concat (map g items)))"
proof -
  have a: "item_segments render (PDict d) =
        Inr (map (\<lambda>sd.
          \<lparr>seg_start = (case map_of sd (u ''start'') of None \<Rightarrow> PInt 0 | Some v \<Rightarrow> v),
           seg_end = (case map_of sd (u ''end'') of None \<Rightarrow> PInt 0 | Some v \<Rightarrow> v),
           seg_text = (case map_of sd (u ''text'') of None \<Rightarrow> PStr [] | Some v \<Rightarrow> v),
           seg_speaker =
             (case map_of sd (u ''spk'') of
                None \<Rightarrow> PStr []
              | Some (PInt n) \<Rightarrow> PStr (u ''spk'' @ show_int n)
              | Some v \<Rightarrow> speaker_of render v)\<rparr>) sds)"
    if "map_of d (u ''sentence_info'') = Some (PList (map PDict sds))" "sds \<noteq> []"
    using rich_item [OF that, of render] by (simp only: speaker_cases) (simp only: dict_get_def)
  show ?thesis
    using a timed_item [of d t spans render] bare_item [of d t render]
      parse_concat [of items render g]
    by blast
qed

theorem parse_funasr_shapes_witness:
  "item_segments (\<lambda>v. [])
     (PDict [(u ''sentence_info'',
        PList [PDict [(u ''text'', PStr (u ''hi'')), (u ''spk'', PInt 1), (u ''end'', PInt 900)]])]) =
     Inr [\<lparr>seg_start = PInt 0, seg_end = PInt 900, seg_text = PStr (u ''hi''),
           seg_speaker = PStr (u ''spk1'')\<rparr>]
   \<and> item_segments (\<lambda>v. [])
     (PDict [(u ''text'', PStr (u ''ab'')),
             (u ''timestamp'', PList [PList [PInt 0, PInt 5], PList [PInt 5, PInt 9]])]) =
     Inr [\<lparr>seg_start = PInt 0, seg_end = PInt 5, seg_text = PStr (u ''ab''),
           seg_speaker = PStr []\<rparr>,
          \<lparr>seg_start = PInt 5, seg_end = PInt 9, seg_text = PStr [],
           seg_speaker = PStr []\<rparr>]
   \<and> parse_funasr_result (\<lambda>v. []) (PList [PDict [(u ''text'', PStr (u ''ab''))]]) =
     Inr [\<lparr>seg_start = PInt 0, seg_end = PInt 0, seg_text = PStr (u ''ab''),
           seg_speaker = PStr []\<rparr>]"
proof -
  let ?r = "\<lambda>v::pyval. ([]::pystr)"
  let ?sd = "[(u ''text'', PStr (u ''hi'')), (u ''spk'', PInt 1), (u ''end'', PInt 900)]"
  let ?da = "[(u ''sentence_info'', PList [PDict ?sd])]"
  let ?db = "[(u ''text'', PStr (u ''ab'')),
             (u ''timestamp'', PList [PList [PInt 0, PInt 5], PList [PInt 5, PInt 9]])]"
  let ?dc = "[(u ''text'', PStr (u ''ab''))]"
  let ?sc = "[\<lparr>seg_start = PInt 0, seg_end = PInt 0, seg_text = PStr (u ''ab''),
           seg_speaker = PStr []\<rparr>]"
  have one: "show_int 1 = u ''1''"
    by (simp add: show_int_def show_nat.simps u_def)
  have a: "item_segments ?r (PDict ?da) =
     Inr [\<lparr>seg_start = PInt 0, seg_end = PInt 900, seg_text = PStr (u ''hi''),
           seg_speaker = PStr (u ''spk1'')\<rparr>]"
    using parse_funasr_shapes [of ?da "[?sd]" ?r "[]" "[]" "[]" "\<lambda>it. []"] one
    by (simp add: u_def)
  have b: "item_segments ?r (PDict ?db) =
     Inr [\<lparr>seg_start = PInt 0, seg_end = PInt 5, seg_text = PStr (u ''ab''),
           seg_speaker = PStr []\<rparr>,
          \<lparr>seg_start = PInt 5, seg_end = PInt 9, seg_text = PStr [],
           seg_speaker = PStr []\<rparr>]"
    using parse_funasr_shapes [of ?db "[]" ?r "u ''ab''" "[(PInt 0, PInt 5), (PInt 5, PInt 9)]"
        "[]" "\<lambda>it. []"]
    by (simp add: u_def dict_get_def)
  have c: "item_segments ?r (PDict ?dc) = Inr ?sc"
    using parse_funasr_shapes [of ?dc "[]" ?r "u ''ab''" "[]" "[]" "\<lambda>it. []"]
    by (simp add: u_def dict_get_def)
  have p: "parse_funasr_result ?r (PList [PDict ?dc]) = Inr ?sc"
    using parse_funasr_shapes [of ?dc "[]" ?r "u ''ab''" "[]" "[PDict ?dc]" "\<lambda>it. ?sc"] c
    by simp
  show ?thesis using a b p by simp
qed

section \<open>The overall percent over a task's lifetime\<close>

lemma stage_order_cases:
  "stage_order (stage_info_of s) =
     (if s = u ''idle'' then 0
      else if s = u ''waiting'' then 1
      else if s = u ''extract'' then 2
      else if s = u ''detect'' then 3
      else if s = u ''transcribe'' then 4
      else if s = u ''save'' then 5
      else if s = u ''done'' then 6
      else if s = u ''failed'' then 6
      else 0)"
  by (simp add: stage_info_of_def STAGES_def)

lemma progress_of_order:
  "progress (stage_info_of s) =
     (let k = stage_order (stage_info_of s) in
      if k = 0 then 0 else if k = 1 then 5 else if k = 2 then 15 else if k = 3 then 25
      else if k = 4 then 40 else if k = 5 then 90 else 100)"
  unfolding stage_progress_cases stage_order_cases by (simp add: Let_def)

lemma base_mono:
  "stage_order (stage_info_of s1) \<le> stage_order (stage_info_of s2)
   \<Longrightarrow> progress (stage_info_of s1) \<le> progress (stage_info_of s2)"
  unfolding progress_of_order Let_def
  by (simp split: if_splits)

lemma stage_order_transcribe:
  "stage_order (stage_info_of (u ''transcribe'')) = 4"
  by (simp add: stage_info_of_def STAGES_def u_def)

lemma stage_order_4:
  "stage_order (stage_info_of s) = 4 \<Longrightarrow> s = u ''transcribe''"
  unfolding stage_order_cases by (simp split: if_splits)

lemma after_transcribe:
  assumes "stage_order (stage_info_of (u ''transcribe'')) \<le> stage_order (stage_info_of s)"
    and "s \<noteq> u ''transcribe''"
  shows "90 \<le> progress (stage_info_of s)"
proof -
  from assms(1) have "4 \<le> stage_order (stage_info_of s)"
    by (simp only: stage_order_transcribe)
  moreover from assms(2) have "stage_order (stage_info_of s) \<noteq> 4"
    using stage_order_4 by blast
  ultimately have "5 \<le> stage_order (stage_info_of s)" by simp
  then show ?thesis unfolding progress_of_order Let_def by simp
qed

lemma half_floor_nonneg:
  "0 < p \<Longrightarrow> 0 \<le> \<lfloor>rat_of_int p * (1/2)\<rfloor>"
  by simp

lemma compute_lower:
  "progress (stage_info_of (current_stage pm)) \<le> compute_progress pm"
proof (cases "current_stage pm = u ''transcribe'' \<and> 0 < transcribe_percent pm")
  case True
  then have s: "current_stage pm = u ''transcribe''" and p: "0 < transcribe_percent pm"
    by blast+
  have c: "compute_progress pm = min (40 + \<lfloor>rat_of_int (transcribe_percent pm) * (1/2)\<rfloor>) 90"
    using s p by (simp only: compute_progress_unfold simp_thms if_True)
  have b: "progress (stage_info_of (current_stage pm)) = 40"
    by (simp only: s stage_progress_table)
  from half_floor_nonneg [OF p] show ?thesis unfolding c b by simp
next
  case False
  then have "compute_progress pm = progress (stage_info_of (current_stage pm))"
    by (simp only: compute_progress_unfold if_False)
  then show ?thesis by simp
qed

lemma compute_upper:
  assumes "current_stage pm = u ''transcribe''"
  shows "compute_progress pm \<le> 90"
proof (cases "0 < transcribe_percent pm")
  case True
  with assms have "compute_progress pm
      = min (40 + \<lfloor>rat_of_int (transcribe_percent pm) * (1/2)\<rfloor>) 90"
    by (simp only: compute_progress_unfold simp_thms if_True)
  then show ?thesis by simp
next
  case False
  with assms have "compute_progress pm = progress (stage_info_of (u ''transcribe''))"
    by (simp only: compute_progress_unfold simp_thms if_False)
  then show ?thesis by (simp add: stage_progress_table)
qed

lemma compute_progress_mono:
  assumes o: "stage_order (stage_info_of (current_stage pm1))
              \<le> stage_order (stage_info_of (current_stage pm2))"
    and t: "transcribe_percent pm1 \<le> transcribe_percent pm2"
  shows "compute_progress pm1 \<le> compute_progress pm2"
proof (cases "current_stage pm1 = u ''transcribe'' \<and> 0 < transcribe_percent pm1")
  case False
  then have "compute_progress pm1 = progress (stage_info_of (current_stage pm1))"
    by (simp only: compute_progress_unfold if_False)
  also have "\<dots> \<le> progress (stage_info_of (current_stage pm2))"
    using o by (rule base_mono)
  also have "\<dots> \<le> compute_progress pm2" by (rule compute_lower)
  finally show ?thesis .
next
  case True
  then have s1: "current_stage pm1 = u ''transcribe''" and p1: "0 < transcribe_percent pm1"
    by blast+
  show ?thesis
  proof (cases "current_stage pm2 = u ''transcribe''")
    case same: True
    from p1 t have p2: "0 < transcribe_percent pm2" by simp
    have c1: "compute_progress pm1
        = min (40 + \<lfloor>rat_of_int (transcribe_percent pm1) * (1/2)\<rfloor>) 90"
      using s1 p1 by (simp only: compute_progress_unfold simp_thms if_True)
    have c2: "compute_progress pm2
        = min (40 + \<lfloor>rat_of_int (transcribe_percent pm2) * (1/2)\<rfloor>) 90"
      using same p2 by (simp only: compute_progress_unfold simp_thms if_True)
    have "\<lfloor>rat_of_int (transcribe_percent pm1) * (1/2)\<rfloor>
          \<le> \<lfloor>rat_of_int (transcribe_percent pm2) * (1/2)\<rfloor>"
      using t by (intro floor_mono) simp
    then show ?thesis unfolding c1 c2 by simp
  next
    case other: False
    have "compute_progress pm1 \<le> 90" using s1 by (rule compute_upper)
    also have "90 \<le> progress (stage_info_of (current_stage pm2))"
    proof (rule after_transcribe)
      show "stage_order (stage_info_of (u ''transcribe''))
            \<le> stage_order (stage_info_of (current_stage pm2))"
        using o unfolding s1 .
      show "current_stage pm2 \<noteq> u ''transcribe''" by (rule other)
    qed
    also have "\<dots> \<le> compute_progress pm2" by (rule compute_lower)
    finally show ?thesis .
  qed
qed

lemma stage_names_distinct:
  "u ''done'' \<noteq> u ''transcribe''" "u ''failed'' \<noteq> u ''transcribe''"
  by (simp_all add: u_def)

lemma compute_progress_terminal:
  assumes "current_stage pm = u ''done'' \<or> current_stage pm = u ''failed''"
  shows "compute_progress pm = 100"
proof -
  from assms have n: "current_stage pm \<noteq> u ''transcribe''"
    using stage_names_distinct by auto
  then have "compute_progress pm = progress (stage_info_of (current_stage pm))"
    by (simp only: compute_progress_unfold simp_thms if_False)
  also from assms have "\<dots> = 100"
    using stage_progress_table(7,8) by auto
  finally show ?thesis .
qed

text \<open>
  C6. Between two states of one task, when the stage does not move back in the order of
  the table (waiting 1, extract 2, detect 3, transcribe 4, save 5, done and failed 6) and
  the transcribe sub-percent does not decrease, the overall percent does not decrease; in
  the stages done and failed, and so after every \<open>finish\<close>, it is exactly 100.
\<close>

theorem percent_monotone:
  "(stage_order (stage_info_of (current_stage pm1))
      \<le> stage_order (stage_info_of (current_stage pm2))
    \<and> transcribe_percent pm1 \<le> transcribe_percent pm2
    \<longrightarrow> compute_progress pm1 \<le> compute_progress pm2)
   \<and> (current_stage pm2 = u ''done'' \<or> current_stage pm2 = u ''failed''
      \<longrightarrow> compute_progress pm2 = 100)
   \<and> map (\<lambda>s. stage_order (stage_info_of s))
        [u ''waiting'', u ''extract'', u ''detect'', u ''transcribe'', u ''save'',
         u ''done'', u ''failed''] = [1, 2, 3, 4, 5, 6, 6]
   \<and> compute_progress (finish c success lang segments speakers pm) = 100"
proof (intro conjI impI)
  assume "stage_order (stage_info_of (current_stage pm1))
            \<le> stage_order (stage_info_of (current_stage pm2))
          \<and> transcribe_percent pm1 \<le> transcribe_percent pm2"
  then show "compute_progress pm1 \<le> compute_progress pm2"
    using compute_progress_mono by blast
next
  assume "current_stage pm2 = u ''done'' \<or> current_stage pm2 = u ''failed''"
  then show "compute_progress pm2 = 100" by (rule compute_progress_terminal)
next
  show "map (\<lambda>s. stage_order (stage_info_of s))
        [u ''waiting'', u ''extract'', u ''detect'', u ''transcribe'', u ''save'',
         u ''done'', u ''failed''] = [1, 2, 3, 4, 5, 6, 6]"
    by (simp add: stage_order_cases u_def)
next
  have "current_stage (finish c success lang segments speakers pm) = u ''done''
        \<or> current_stage (finish c success lang segments speakers pm) = u ''failed''"
    by (simp add: finish_def Let_def)
  then show "compute_progress (finish c success lang segments speakers pm) = 100"
    by (rule compute_progress_terminal)
qed

theorem percent_monotone_witness:
  "compute_progress
     (update_transcribe_progress \<lparr>epoch = 2, hms = [], ymd_hms = []\<rparr> 60 []
        (update \<lparr>epoch = 1, hms = [], ymd_hms = []\<rparr> (u ''transcribe'') [] 0 0
           (init \<lparr>epoch = 0, hms = [], ymd_hms = []\<rparr>)))
   \<le> compute_progress
     (update \<lparr>epoch = 3, hms = [], ymd_hms = []\<rparr> (u ''save'') [] 0 0
        (update_transcribe_progress \<lparr>epoch = 2, hms = [], ymd_hms = []\<rparr> 60 []
           (update \<lparr>epoch = 1, hms = [], ymd_hms = []\<rparr> (u ''transcribe'') [] 0 0
              (init \<lparr>epoch = 0, hms = [], ymd_hms = []\<rparr>))))
   \<and> compute_progress
     (update \<lparr>epoch = 3, hms = [], ymd_hms = []\<rparr> (u ''done'') [] 0 0
        (init \<lparr>epoch = 0, hms = [], ymd_hms = []\<rparr>)) = 100"
  using percent_monotone
    [of "update_transcribe_progress \<lparr>epoch = 2, hms = [], ymd_hms = []\<rparr> 60 []
           (update \<lparr>epoch = 1, hms = [], ymd_hms = []\<rparr> (u ''transcribe'') [] 0 0
              (init \<lparr>epoch = 0, hms = [], ymd_hms = []\<rparr>))"
        "update \<lparr>epoch = 3, hms = [], ymd_hms = []\<rparr> (u ''save'') [] 0 0
           (update_transcribe_progress \<lparr>epoch = 2, hms = [], ymd_hms = []\<rparr> 60 []
              (update \<lparr>epoch = 1, hms = [], ymd_hms = []\<rparr> (u ''transcribe'') [] 0 0
                 (init \<lparr>epoch = 0, hms = [], ymd_hms = []\<rparr>)))"]
    percent_monotone
    [of _ "update \<lparr>epoch = 3, hms = [], ymd_hms = []\<rparr> (u ''done'') [] 0 0
           (init \<lparr>epoch = 0, hms = [], ymd_hms = []\<rparr>)"]
  by (simp add: update_def update_transcribe_progress_def init_def Let_def
      stage_order_cases u_def)

section \<open>Properties of \<open>process_video\<close>\<close>

lemma call_fields [simp]:
  "progress_state (call env m w) = m (env_clock env (clock_reads w)) (progress_state w)"
  "clock_reads (call env m w) = Suc (clock_reads w)"
  "processed_file (call env m w) = processed_file w"
  "files (call env m w) = files w"
  "video_files (call env m w) = video_files w"
  "txt_files (call env m w) = txt_files w"
  by (simp_all add: call_def)

lemma remove_from_queue_fields:
  "queue (remove_from_queue c fname pm) = filter (\<lambda>item. q_filename item \<noteq> fname) (queue pm)"
  "status_file (remove_from_queue c fname pm) =
     status_file pm
     @ [status_of c (pm\<lparr>queue := filter (\<lambda>item. q_filename item \<noteq> fname) (queue pm)\<rparr>)]"
  "start_time (remove_from_queue c fname pm) = start_time pm"
  "filename (remove_from_queue c fname pm) = filename pm"
  "filesize_mb (remove_from_queue c fname pm) = filesize_mb pm"
  "duration_sec (remove_from_queue c fname pm) = duration_sec pm"
  "current_stage (remove_from_queue c fname pm) = current_stage pm"
  "detail (remove_from_queue c fname pm) = detail pm"
  "transcribe_percent (remove_from_queue c fname pm) = transcribe_percent pm"
  "error (remove_from_queue c fname pm) = error pm"
  "history (remove_from_queue c fname pm) = history pm"
  "total_completed (remove_from_queue c fname pm) = total_completed pm"
  "total_failed (remove_from_queue c fname pm) = total_failed pm"
  by (simp_all add: remove_from_queue_def write_status_def)

lemma process_video_processed:
  assumes "is_processed video_path (processed_file w)"
    and "files w video_path = Some size_bytes"
  shows "process_video env video_path w =
         Inr (call env (\<lambda>c. remove_from_queue c (path_name video_path)) w)"
  using assms by (simp add: process_video_def Let_def)

lemma process_video_missing:
  "files w video_path = None \<Longrightarrow> process_video env video_path w = Inl FileNotFoundError"
  by (simp add: process_video_def)

lemma example_path_name:
  "path_name (u ''/d/a.mp4'') = u ''a.mp4''"
  by (simp add: path_name_def u_def)

lemma example_processed:
  "is_processed (u ''/d/a.mp4'') (processed_file example_world)"
  by (simp add: is_processed_def load_processed_def example_world_def)

lemma example_files:
  "files example_world (u ''/d/a.mp4'') = Some 1048576"
  by (simp add: example_world_def)

lemma example_run:
  "process_video example_env (u ''/d/a.mp4'') example_world =
   Inr (call example_env (\<lambda>c. remove_from_queue c (u ''a.mp4'')) example_world)"
  using process_video_processed [OF example_processed example_files, of example_env]
  by (simp only: example_path_name)

lemma example_queue_before:
  "map q_filename (queue (progress_state example_world)) = [u ''a.mp4'', u ''b.mp4'']"
  by (simp add: example_world_def add_to_queue_def init_def write_status_def)

lemma example_queue_after:
  "map q_filename (queue (progress_state
      (call example_env (\<lambda>c. remove_from_queue c (u ''a.mp4'')) example_world))) = [u ''b.mp4'']"
  by (simp add: remove_from_queue_fields example_world_def add_to_queue_def init_def
      write_status_def u_def)

lemma example_status_before:
  "length (status_file (progress_state example_world)) = 3"
  by (simp add: example_world_def add_to_queue_def init_def write_status_def)

lemma example_status_after:
  "length (status_file (progress_state
      (call example_env (\<lambda>c. remove_from_queue c (u ''a.mp4'')) example_world))) = 4"
  by (simp add: remove_from_queue_fields example_status_before)

text \<open>
  C1 as the specification states it does not hold: on the path \<open>/d/a.mp4\<close>, which is in
  the processed record, \<open>process_video\<close> returns a state other than the one it was called
  in; the queue view loses the entry \<open>a.mp4\<close> and a fourth status document is written.
\<close>

theorem process_video_processed_counterexample:
  "is_processed (u ''/d/a.mp4'') (processed_file example_world)
   \<and> process_video example_env (u ''/d/a.mp4'') example_world \<noteq> Inr example_world
   \<and> map q_filename (queue (progress_state example_world)) = [u ''a.mp4'', u ''b.mp4'']
   \<and> map q_filename (queue (progress_state
        (projr (process_video example_env (u ''/d/a.mp4'') example_world)))) = [u ''b.mp4'']
   \<and> length (status_file (progress_state example_world)) = 3
   \<and> length (status_file (progress_state
        (projr (process_video example_env (u ''/d/a.mp4'') example_world)))) = 4"
proof -
  have "process_video example_env (u ''/d/a.mp4'') example_world \<noteq> Inr example_world"
  proof
    assume "process_video example_env (u ''/d/a.mp4'') example_world = Inr example_world"
    then have "call example_env (\<lambda>c. remove_from_queue c (u ''a.mp4'')) example_world
               = example_world"
      by (simp only: example_run sum.inject)
    then have "length (status_file (progress_state example_world)) = 4"
      using example_status_after by simp
    then show False using example_status_before by simp
  qed
  then show ?thesis
    by (simp only: example_run sum.sel example_processed example_queue_before
        example_queue_after example_status_before example_status_after simp_thms)
qed

text \<open>
  C1, amended. For a path that is in the processed record, \<open>process_video\<close> first reads the
  size of the file, which raises when the file is gone, then removes the entries of that
  file name from the queue view and writes one status document, and only then returns:
  the stage and every other field of the progress state, the processed record and the
  files stay as they were.
\<close>

theorem process_video_already_processed:
  assumes "is_processed video_path (processed_file w)"
  shows "(files w video_path = None \<longrightarrow>
            process_video env video_path w = Inl FileNotFoundError)
   \<and> (files w video_path \<noteq> None \<longrightarrow>
        (\<exists>w'. process_video env video_path w = Inr w'
          \<and> queue (progress_state w') =
              filter (\<lambda>item. q_filename item \<noteq> path_name video_path)
                (queue (progress_state w))
          \<and> status_file (progress_state w') =
              status_file (progress_state w)
              @ [status_of (env_clock env (clock_reads w))
                   ((progress_state w)\<lparr>queue :=
                      filter (\<lambda>item. q_filename item \<noteq> path_name video_path)
                        (queue (progress_state w))\<rparr>)]
          \<and> current_stage (progress_state w') = current_stage (progress_state w)
          \<and> start_time (progress_state w') = start_time (progress_state w)
          \<and> filename (progress_state w') = filename (progress_state w)
          \<and> filesize_mb (progress_state w') = filesize_mb (progress_state w)
          \<and> duration_sec (progress_state w') = duration_sec (progress_state w)
          \<and> detail (progress_state w') = detail (progress_state w)
          \<and> transcribe_percent (progress_state w') = transcribe_percent (progress_state w)
          \<and> error (progress_state w') = error (progress_state w)
          \<and> history (progress_state w') = history (progress_state w)
          \<and> total_completed (progress_state w') = total_completed (progress_state w)
          \<and> total_failed (progress_state w') = total_failed (progress_state w)
          \<and> processed_file w' = processed_file w
          \<and> files w' = files w
          \<and> video_files w' = video_files w
          \<and> txt_files w' = txt_files w))"
proof (intro conjI impI)
  assume "files w video_path = None"
  then show "process_video env video_path w = Inl FileNotFoundError"
    by (rule process_video_missing)
next
  assume "files w video_path \<noteq> None"
  then obtain size_bytes where "files w video_path = Some size_bytes" by blast
  with assms have "process_video env video_path w =
      Inr (call env (\<lambda>c. remove_from_queue c (path_name video_path)) w)"
    by (rule process_video_processed)
  then show "\<exists>w'. process_video env video_path w = Inr w'
          \<and> queue (progress_state w') =
              filter (\<lambda>item. q_filename item \<noteq> path_name video_path)
                (queue (progress_state w))
          \<and> status_file (progress_state w') =
              status_file (progress_state w)
              @ [status_of (env_clock env (clock_reads w))
                   ((progress_state w)\<lparr>queue :=
                      filter (\<lambda>item. q_filename item \<noteq> path_name video_path)
                        (queue (progress_state w))\<rparr>)]
          \<and> current_stage (progress_state w') = current_stage (progress_state w)
          \<and> start_time (progress_state w') = start_time (progress_state w)
          \<and> filename (progress_state w') = filename (progress_state w)
          \<and> filesize_mb (progress_state w') = filesize_mb (progress_state w)
          \<and> duration_sec (progress_state w') = duration_sec (progress_state w)
          \<and> detail (progress_state w') = detail (progress_state w)
          \<and> transcribe_percent (progress_state w') = transcribe_percent (progress_state w)
          \<and> error (progress_state w') = error (progress_state w)
          \<and> history (progress_state w') = history (progress_state w)
          \<and> total_completed (progress_state w') = total_completed (progress_state w)
          \<and> total_failed (progress_state w') = total_failed (progress_state w)
          \<and> processed_file w' = processed_file w
          \<and> files w' = files w
          \<and> video_files w' = video_files w
          \<and> txt_files w' = txt_files w"
    by (simp add: remove_from_queue_fields)
qed

theorem process_video_already_processed_witness:
  "is_processed (u ''/d/a.mp4'') (processed_file example_world)
   \<and> files example_world (u ''/d/a.mp4'') = Some 1048576
   \<and> map q_filename (queue (progress_state
        (projr (process_video example_env (u ''/d/a.mp4'') example_world)))) = [u ''b.mp4'']
   \<and> current_stage (progress_state
        (projr (process_video example_env (u ''/d/a.mp4'') example_world))) = u ''idle''
   \<and> processed_file (projr (process_video example_env (u ''/d/a.mp4'') example_world))
       = Some [u ''/d/a.mp4'']
   \<and> process_video example_env (u ''/d/gone.mp4'')
        (example_world\<lparr>processed_file := Some [u ''/d/gone.mp4'']\<rparr>) = Inl FileNotFoundError"
proof -
  have g: "is_processed (u ''/d/gone.mp4'')
             (processed_file (example_world\<lparr>processed_file := Some [u ''/d/gone.mp4'']\<rparr>))"
    by (simp add: is_processed_def load_processed_def)
  have f: "files example_world (u ''/d/gone.mp4'') = None"
    by (simp add: example_world_def u_def)
  have q: "filter (\<lambda>item. q_filename item \<noteq> u ''a.mp4'') (queue (progress_state example_world))
           = [\<lparr>q_filename = u ''b.mp4'', q_filesize_mb = round1 2, q_queued_at = hms example_clock\<rparr>]"
    by (simp add: example_world_def add_to_queue_def init_def write_status_def u_def)
  have s: "current_stage (progress_state example_world) = u ''idle''"
    by (simp add: example_world_def add_to_queue_def init_def write_status_def)
  have p: "processed_file example_world = Some [u ''/d/a.mp4'']"
    by (simp add: example_world_def)
  have i: "is_processed (u ''/d/a.mp4'') (Some [u ''/d/a.mp4''])"
    by (simp add: is_processed_def load_processed_def)
  from process_video_already_processed [OF example_processed, of example_env]
    process_video_already_processed [OF g, of example_env]
  show ?thesis
    by (auto simp add: example_files example_path_name f q s p i)
qed

lemma update_ledger [simp]:
  "queue (update c s d t du pm) = queue pm"
  "history (update c s d t du pm) = history pm"
  "total_completed (update c s d t du pm) = total_completed pm"
  "total_failed (update c s d t du pm) = total_failed pm"
  "filename (update c s d t du pm) = filename pm"
  by (simp_all add: update_def Let_def write_status_def)

lemma start_ledger [simp]:
  "queue (start c f s du pm) = queue pm"
  "history (start c f s du pm) = history pm"
  "total_completed (start c f s du pm) = total_completed pm"
  "total_failed (start c f s du pm) = total_failed pm"
  "filename (start c f s du pm) = f"
  by (simp_all add: start_def write_status_def)

lemma set_error_ledger [simp]:
  "queue (set_error c e pm) = queue pm"
  "history (set_error c e pm) = history pm"
  "total_completed (set_error c e pm) = total_completed pm"
  "total_failed (set_error c e pm) = total_failed pm"
  "error (set_error c e pm) = e"
  "filename (set_error c e pm) = filename pm"
  by (simp_all add: set_error_def write_status_def)

lemma reset_ledger [simp]:
  "queue (reset_to_idle c pm) = queue pm"
  "history (reset_to_idle c pm) = history pm"
  "total_completed (reset_to_idle c pm) = total_completed pm"
  "total_failed (reset_to_idle c pm) = total_failed pm"
  by (simp_all add: reset_to_idle_def write_status_def)

lemma remove_ledger [simp]:
  "history (remove_from_queue c f pm) = history pm"
  "total_completed (remove_from_queue c f pm) = total_completed pm"
  "total_failed (remove_from_queue c f pm) = total_failed pm"
  by (simp_all add: remove_from_queue_def write_status_def)

lemma finish_failure_ledger:
  "history (finish c False l s k pm) =
     history pm @ [\<lparr>h_time = hms c, h_file = filename pm, h_result = RESULT_FAIL,
                    h_lang = None, h_error = Some (take 50 (error pm)),
                    h_elapsed = elapsed_str c pm\<rparr>]"
  "total_failed (finish c False l s k pm) = total_failed pm + 1"
  "total_completed (finish c False l s k pm) = total_completed pm"
  by (simp_all add: finish_def Let_def)

lemma move_or_stay [simp]:
  "progress_state (case move_video e src n b w of Inl x \<Rightarrow> w | Inr moved \<Rightarrow> moved)
     = progress_state w"
  "clock_reads (case move_video e src n b w of Inl x \<Rightarrow> w | Inr moved \<Rightarrow> moved)
     = clock_reads w"
  "processed_file (case move_video e src n b w of Inl x \<Rightarrow> w | Inr moved \<Rightarrow> moved)
     = processed_file w"
  by (simp_all add: move_video_def Let_def split: option.splits)

lemma except_block_ledger:
  "history (progress_state (except_block env p (m, sn, w))) =
     history (progress_state w)
     @ [\<lparr>h_time = hms (env_clock env (Suc (clock_reads w))),
         h_file = filename (progress_state w), h_result = RESULT_FAIL,
         h_lang = None, h_error = Some (take 50 m),
         h_elapsed = elapsed_str (env_clock env (Suc (clock_reads w)))
                       (set_error (env_clock env (clock_reads w)) m (progress_state w))\<rparr>]"
  "total_failed (progress_state (except_block env p (m, sn, w))) =
     total_failed (progress_state w) + 1"
  "total_completed (progress_state (except_block env p (m, sn, w))) =
     total_completed (progress_state w)"
  "processed_file (except_block env p (m, sn, w)) = processed_file w"
  by (simp_all add: except_block_def Let_def finish_failure_ledger)

lemma is_processed_mark:
  "is_processed p (mark_processed p pf)"
  by (cases pf)
     (simp_all add: is_processed_def mark_processed_def save_processed_def load_processed_def
        set_insort_key)

lemma process_video_extract_failure:
  assumes n: "\<not> is_processed video_path (processed_file w)"
    and f: "files w video_path = Some size_bytes"
    and e: "env_extract_error env = Some message"
  shows "\<exists>w' t el. process_video env video_path w = Inr w'
     \<and> history (progress_state w') =
         history (progress_state w)
         @ [\<lparr>h_time = t, h_file = path_name video_path, h_result = RESULT_FAIL,
             h_lang = None, h_error = Some (take 50 message), h_elapsed = el\<rparr>]
     \<and> total_failed (progress_state w') = total_failed (progress_state w) + 1
     \<and> total_completed (progress_state w') = total_completed (progress_state w)
     \<and> is_processed video_path (processed_file w')"
  using n f e
  by (simp add: process_video_def try_block_def Let_def except_block_ledger is_processed_mark)


lemma update_transcribe_progress_ledger [simp]:
  "queue (update_transcribe_progress c p d pm) = queue pm"
  "history (update_transcribe_progress c p d pm) = history pm"
  "total_completed (update_transcribe_progress c p d pm) = total_completed pm"
  "total_failed (update_transcribe_progress c p d pm) = total_failed pm"
  "filename (update_transcribe_progress c p d pm) = filename pm"
  by (simp_all add: update_transcribe_progress_def Let_def write_status_def)

lemma finish_success_ledger:
  "history (finish c True l s k pm) =
     history pm @ [\<lparr>h_time = hms c, h_file = filename pm, h_result = RESULT_OK,
                    h_lang = Some l, h_error = None, h_elapsed = elapsed_str c pm\<rparr>]"
  "total_completed (finish c True l s k pm) = total_completed pm + 1"
  "total_failed (finish c True l s k pm) = total_failed pm"
  by (simp_all add: finish_def Let_def)

lemma ticks_ledger [simp]:
  "history (progress_state (fold (\<lambda>tick. call env (\<lambda>c. update_transcribe_progress c
       (max 1 (min (fst tick) 95)) (snd tick))) ts w)) = history (progress_state w)"
  "total_completed (progress_state (fold (\<lambda>tick. call env (\<lambda>c. update_transcribe_progress c
       (max 1 (min (fst tick) 95)) (snd tick))) ts w)) = total_completed (progress_state w)"
  "total_failed (progress_state (fold (\<lambda>tick. call env (\<lambda>c. update_transcribe_progress c
       (max 1 (min (fst tick) 95)) (snd tick))) ts w)) = total_failed (progress_state w)"
  "filename (progress_state (fold (\<lambda>tick. call env (\<lambda>c. update_transcribe_progress c
       (max 1 (min (fst tick) 95)) (snd tick))) ts w)) = filename (progress_state w)"
  "processed_file (fold (\<lambda>tick. call env (\<lambda>c. update_transcribe_progress c
       (max 1 (min (fst tick) 95)) (snd tick))) ts w) = processed_file w"
  by (induction ts arbitrary: w) simp_all

lemma move_video_frame:
  "move_video e src n b w = Inr w' \<Longrightarrow>
     progress_state w' = progress_state w \<and> clock_reads w' = clock_reads w
     \<and> processed_file w' = processed_file w \<and> txt_files w' = txt_files w"
  by (auto simp add: move_video_def Let_def split: option.splits)

lemma try_block_raise_ledger:
  assumes "try_block env p f w = Inl (m, sn, w')"
  shows "history (progress_state w') = history (progress_state w)
       \<and> total_completed (progress_state w') = total_completed (progress_state w)
       \<and> total_failed (progress_state w') = total_failed (progress_state w)
       \<and> filename (progress_state w') = filename (progress_state w)
       \<and> processed_file w' = processed_file w"
  using assms
  by (auto simp add: try_block_def Let_def split: option.splits sum.splits)

lemma try_block_done_ledger:
  assumes "try_block env p f w = Inr w'"
  shows "\<exists>t el. history (progress_state w') =
           history (progress_state w)
           @ [\<lparr>h_time = t, h_file = filename (progress_state w), h_result = RESULT_OK,
               h_lang = Some (env_language env), h_error = None, h_elapsed = el\<rparr>]"
    and "total_completed (progress_state w') = total_completed (progress_state w) + 1"
    and "total_failed (progress_state w') = total_failed (progress_state w)"
    and "processed_file w' = processed_file w"
  using assms
  by (auto simp add: try_block_def Let_def finish_success_ledger
      split: option.splits sum.splits dest!: move_video_frame)


lemma process_video_unprocessed:
  assumes "\<not> is_processed video_path (processed_file w)"
    and "files w video_path = Some size_bytes"
  shows "process_video env video_path w =
     (case try_block env video_path (path_name video_path)
             ((call env (\<lambda>c. start c (path_name video_path)
                                (of_nat size_bytes / 1024 / 1024) 0)
                 (call env (\<lambda>c. remove_from_queue c (path_name video_path)) w))
              \<lparr>processed_file := mark_processed video_path (processed_file w)\<rparr>) of
        Inr done \<Rightarrow> Inr done
      | Inl raised \<Rightarrow> Inr (except_block env video_path raised))"
  using assms by (simp add: process_video_def Let_def)

text \<open>
  Whether the \<open>try\<close> block raises, and with which message, is decided by the first
  collaborator that fails: the extraction, the loading of the model, the recogniser, the
  normalisation of its result, the writing of the transcript, the move of the source.
\<close>

lemma try_block_raise_message:
  "(case try_block env video_path fname w0 of Inl raised \<Rightarrow> Some (fst raised) | Inr w' \<Rightarrow> None)
   = (case env_extract_error env of
            Some m \<Rightarrow> Some m
          | None \<Rightarrow>
             (case env_load_error env of
                Some m \<Rightarrow> Some m
              | None \<Rightarrow>
                 (case env_asr_result env of
                    Inl m \<Rightarrow> Some m
                  | Inr result \<Rightarrow>
                     (case parse_funasr_result (env_render env) result of
                        Inl e \<Rightarrow> Some (env_describe env e)
                      | Inr segments \<Rightarrow>
                         (case env_md_error env of
                            Some m \<Rightarrow> Some m
                          | None \<Rightarrow> env_move_error env)))))"
  by (simp add: try_block_def Let_def move_video_def split: option.splits sum.splits)

lemma process_video_outcome:
  assumes n: "\<not> is_processed video_path (processed_file w)"
    and f: "files w video_path = Some size_bytes"
  shows "(\<exists>w' entry. process_video env video_path w = Inr w'
          \<and> history (progress_state w') = history (progress_state w) @ [entry]
          \<and> h_file entry = path_name video_path
          \<and> is_processed video_path (processed_file w')
          \<and> (case (case env_extract_error env of
                 Some m \<Rightarrow> Some m
               | None \<Rightarrow>
                  (case env_load_error env of
                     Some m \<Rightarrow> Some m
                   | None \<Rightarrow>
                      (case env_asr_result env of
                         Inl m \<Rightarrow> Some m
                       | Inr result \<Rightarrow>
                          (case parse_funasr_result (env_render env) result of
                             Inl e \<Rightarrow> Some (env_describe env e)
                           | Inr segments \<Rightarrow>
                              (case env_md_error env of
                                 Some m \<Rightarrow> Some m
                               | None \<Rightarrow> env_move_error env))))) of
               Some message \<Rightarrow>
                 h_result entry = RESULT_FAIL \<and> h_lang entry = None
                 \<and> h_error entry = Some (take 50 message)
                 \<and> total_failed (progress_state w') = total_failed (progress_state w) + 1
                 \<and> total_completed (progress_state w') = total_completed (progress_state w)
             | None \<Rightarrow>
                 h_result entry = RESULT_OK \<and> h_lang entry = Some (env_language env)
                 \<and> h_error entry = None
                 \<and> total_completed (progress_state w') = total_completed (progress_state w) + 1
                 \<and> total_failed (progress_state w') = total_failed (progress_state w)))"
proof -
  define w3 where "w3 =
      (call env (\<lambda>c. start c (path_name video_path) (of_nat size_bytes / 1024 / 1024) 0)
         (call env (\<lambda>c. remove_from_queue c (path_name video_path)) w))
      \<lparr>processed_file := mark_processed video_path (processed_file w)\<rparr>"
  have pv: "process_video env video_path w =
     (case try_block env video_path (path_name video_path) w3 of
        Inr done \<Rightarrow> Inr done
      | Inl raised \<Rightarrow> Inr (except_block env video_path raised))"
    unfolding w3_def using n f by (rule process_video_unprocessed)
  have h3: "history (progress_state w3) = history (progress_state w)"
    and c3: "total_completed (progress_state w3) = total_completed (progress_state w)"
    and f3: "total_failed (progress_state w3) = total_failed (progress_state w)"
    and n3: "filename (progress_state w3) = path_name video_path"
    and p3: "is_processed video_path (processed_file w3)"
    by (simp_all add: w3_def is_processed_mark)
  note msg = try_block_raise_message [of env video_path "path_name video_path" w3]
  show ?thesis
  proof (cases "try_block env video_path (path_name video_path) w3")
    case (Inr finished)
    from try_block_done_ledger [OF Inr] obtain t el where
      "history (progress_state finished) =
         history (progress_state w3)
         @ [\<lparr>h_time = t, h_file = filename (progress_state w3), h_result = RESULT_OK,
             h_lang = Some (env_language env), h_error = None, h_elapsed = el\<rparr>]"
      and "total_completed (progress_state finished) = total_completed (progress_state w3) + 1"
      and "total_failed (progress_state finished) = total_failed (progress_state w3)"
      and "processed_file finished = processed_file w3"
      by blast
    moreover have "(case env_extract_error env of
            Some m \<Rightarrow> Some m
          | None \<Rightarrow>
             (case env_load_error env of
                Some m \<Rightarrow> Some m
              | None \<Rightarrow>
                 (case env_asr_result env of
                    Inl m \<Rightarrow> Some m
                  | Inr result \<Rightarrow>
                     (case parse_funasr_result (env_render env) result of
                        Inl e \<Rightarrow> Some (env_describe env e)
                      | Inr segments \<Rightarrow>
                         (case env_md_error env of
                            Some m \<Rightarrow> Some m
                          | None \<Rightarrow> env_move_error env))))) = None"
      using msg Inr by simp
    ultimately show ?thesis using pv Inr p3 by (simp add: h3 c3 f3 n3)
  next
    case (Inl raised)
    obtain m sn wr where r: "raised = (m, sn, wr)" by (cases raised)
    from try_block_raise_ledger [OF Inl [unfolded r]]
    have "history (progress_state wr) = history (progress_state w)"
      and "total_completed (progress_state wr) = total_completed (progress_state w)"
      and "total_failed (progress_state wr) = total_failed (progress_state w)"
      and "filename (progress_state wr) = path_name video_path"
      and "is_processed video_path (processed_file wr)"
      using p3 by (simp_all add: h3 c3 f3 n3)
    moreover have "(case env_extract_error env of
            Some m \<Rightarrow> Some m
          | None \<Rightarrow>
             (case env_load_error env of
                Some m \<Rightarrow> Some m
              | None \<Rightarrow>
                 (case env_asr_result env of
                    Inl m \<Rightarrow> Some m
                  | Inr result \<Rightarrow>
                     (case parse_funasr_result (env_render env) result of
                        Inl e \<Rightarrow> Some (env_describe env e)
                      | Inr segments \<Rightarrow>
                         (case env_md_error env of
                            Some m \<Rightarrow> Some m
                          | None \<Rightarrow> env_move_error env))))) = Some m"
      using msg Inl r by simp
    ultimately show ?thesis using pv Inl r by (simp add: except_block_ledger)
  qed
qed

lemma try_block_raise_recorded:
  assumes "try_block env video_path fname w0 = Inl (m, sn, wr)"
  shows "history (progress_state (except_block env video_path (m, sn, wr))) =
          history (progress_state w0)
          @ [\<lparr>h_time = hms (env_clock env (Suc (clock_reads wr))),
              h_file = filename (progress_state w0), h_result = RESULT_FAIL,
              h_lang = None, h_error = Some (take 50 m),
              h_elapsed = elapsed_str (env_clock env (Suc (clock_reads wr)))
                            (set_error (env_clock env (clock_reads wr)) m (progress_state wr))\<rparr>]
        \<and> total_failed (progress_state (except_block env video_path (m, sn, wr))) =
            total_failed (progress_state w0) + 1
        \<and> total_completed (progress_state (except_block env video_path (m, sn, wr))) =
            total_completed (progress_state w0)"
  using try_block_raise_ledger [OF assms] by (simp add: except_block_ledger)

text \<open>
  C5. \<open>finish\<close> with \<open>success = False\<close> appends exactly one history entry, marked as a
  failure and carrying the first 50 characters of the recorded error, adds 1 to the failed
  counter and leaves the completed counter alone; with \<open>success = True\<close> it appends one
  success entry, adds 1 to the completed counter and leaves the failed counter alone.
  Every exception that the \<open>try\<close> block of \<open>process_video\<close> raises is recorded so by the
  \<open>except\<close> block: one failure entry with the first 50 characters of the message, failed
  plus 1, completed unchanged. So one run of \<open>process_video\<close> on a file that exists and is
  not in the processed record appends exactly one entry for that file: when any
  collaborator fails (the first failure gives the message) the failure entry, with failed
  plus 1 and completed unchanged, and the success entry with completed plus 1 only when
  none fails. In particular a task whose extraction fails, after the path was recorded as
  processed, appears once, as a failure.
\<close>

theorem finish_records_outcome:
  "history (finish c False lang segments speakers pm) =
     history pm @ [\<lparr>h_time = hms c, h_file = filename pm, h_result = RESULT_FAIL,
                    h_lang = None, h_error = Some (take 50 (error pm)),
                    h_elapsed = elapsed_str c pm\<rparr>]
   \<and> total_failed (finish c False lang segments speakers pm) = total_failed pm + 1
   \<and> total_completed (finish c False lang segments speakers pm) = total_completed pm
   \<and> history (finish c True lang segments speakers pm) =
     history pm @ [\<lparr>h_time = hms c, h_file = filename pm, h_result = RESULT_OK,
                    h_lang = Some lang, h_error = None, h_elapsed = elapsed_str c pm\<rparr>]
   \<and> total_completed (finish c True lang segments speakers pm) = total_completed pm + 1
   \<and> total_failed (finish c True lang segments speakers pm) = total_failed pm
   \<and> RESULT_FAIL \<noteq> RESULT_OK
   \<and> length (take 50 (error pm)) \<le> 50
   \<and> (try_block env video_path fname w0 = Inl (m, sn, wr) \<longrightarrow>
        history (progress_state (except_block env video_path (m, sn, wr))) =
          history (progress_state w0)
          @ [\<lparr>h_time = hms (env_clock env (Suc (clock_reads wr))),
              h_file = filename (progress_state w0), h_result = RESULT_FAIL,
              h_lang = None, h_error = Some (take 50 m),
              h_elapsed = elapsed_str (env_clock env (Suc (clock_reads wr)))
                            (set_error (env_clock env (clock_reads wr)) m (progress_state wr))\<rparr>]
        \<and> total_failed (progress_state (except_block env video_path (m, sn, wr))) =
            total_failed (progress_state w0) + 1
        \<and> total_completed (progress_state (except_block env video_path (m, sn, wr))) =
            total_completed (progress_state w0))
   \<and> (\<not> is_processed video_path (processed_file w) \<and> files w video_path \<noteq> None \<longrightarrow>
        (\<exists>w' entry. process_video env video_path w = Inr w'
          \<and> history (progress_state w') = history (progress_state w) @ [entry]
          \<and> h_file entry = path_name video_path
          \<and> is_processed video_path (processed_file w')
          \<and> (case (case env_extract_error env of
                 Some m \<Rightarrow> Some m
               | None \<Rightarrow>
                  (case env_load_error env of
                     Some m \<Rightarrow> Some m
                   | None \<Rightarrow>
                      (case env_asr_result env of
                         Inl m \<Rightarrow> Some m
                       | Inr result \<Rightarrow>
                          (case parse_funasr_result (env_render env) result of
                             Inl e \<Rightarrow> Some (env_describe env e)
                           | Inr segments \<Rightarrow>
                              (case env_md_error env of
                                 Some m \<Rightarrow> Some m
                               | None \<Rightarrow> env_move_error env))))) of
               Some message \<Rightarrow>
                 h_result entry = RESULT_FAIL \<and> h_lang entry = None
                 \<and> h_error entry = Some (take 50 message)
                 \<and> total_failed (progress_state w') = total_failed (progress_state w) + 1
                 \<and> total_completed (progress_state w') = total_completed (progress_state w)
             | None \<Rightarrow>
                 h_result entry = RESULT_OK \<and> h_lang entry = Some (env_language env)
                 \<and> h_error entry = None
                 \<and> total_completed (progress_state w') = total_completed (progress_state w) + 1
                 \<and> total_failed (progress_state w') = total_failed (progress_state w))))
   \<and> (\<not> is_processed video_path (processed_file w) \<and> files w video_path \<noteq> None
       \<and> env_extract_error env = Some message \<longrightarrow>
        (\<exists>w' t el. process_video env video_path w = Inr w'
          \<and> history (progress_state w') =
              history (progress_state w)
              @ [\<lparr>h_time = t, h_file = path_name video_path, h_result = RESULT_FAIL,
                  h_lang = None, h_error = Some (take 50 message), h_elapsed = el\<rparr>]
          \<and> total_failed (progress_state w') = total_failed (progress_state w) + 1
          \<and> total_completed (progress_state w') = total_completed (progress_state w)
          \<and> is_processed video_path (processed_file w')))"
proof -
  have a: "history (finish c False lang segments speakers pm) =
     history pm @ [\<lparr>h_time = hms c, h_file = filename pm, h_result = RESULT_FAIL,
                    h_lang = None, h_error = Some (take 50 (error pm)),
                    h_elapsed = elapsed_str c pm\<rparr>]
   \<and> total_failed (finish c False lang segments speakers pm) = total_failed pm + 1
   \<and> total_completed (finish c False lang segments speakers pm) = total_completed pm
   \<and> history (finish c True lang segments speakers pm) =
     history pm @ [\<lparr>h_time = hms c, h_file = filename pm, h_result = RESULT_OK,
                    h_lang = Some lang, h_error = None, h_elapsed = elapsed_str c pm\<rparr>]
   \<and> total_completed (finish c True lang segments speakers pm) = total_completed pm + 1
   \<and> total_failed (finish c True lang segments speakers pm) = total_failed pm
   \<and> RESULT_FAIL \<noteq> RESULT_OK
   \<and> length (take 50 (error pm)) \<le> 50"
    by (simp add: finish_def Let_def RESULT_FAIL_def RESULT_OK_def)
  have b: "history (progress_state (except_block env video_path (m, sn, wr))) =
          history (progress_state w0)
          @ [\<lparr>h_time = hms (env_clock env (Suc (clock_reads wr))),
              h_file = filename (progress_state w0), h_result = RESULT_FAIL,
              h_lang = None, h_error = Some (take 50 m),
              h_elapsed = elapsed_str (env_clock env (Suc (clock_reads wr)))
                            (set_error (env_clock env (clock_reads wr)) m (progress_state wr))\<rparr>]
        \<and> total_failed (progress_state (except_block env video_path (m, sn, wr))) =
            total_failed (progress_state w0) + 1
        \<and> total_completed (progress_state (except_block env video_path (m, sn, wr))) =
            total_completed (progress_state w0)"
    if "try_block env video_path fname w0 = Inl (m, sn, wr)"
    using that by (rule try_block_raise_recorded)
  have c: "(\<exists>w' entry. process_video env video_path w = Inr w'
          \<and> history (progress_state w') = history (progress_state w) @ [entry]
          \<and> h_file entry = path_name video_path
          \<and> is_processed video_path (processed_file w')
          \<and> (case (case env_extract_error env of
                 Some m \<Rightarrow> Some m
               | None \<Rightarrow>
                  (case env_load_error env of
                     Some m \<Rightarrow> Some m
                   | None \<Rightarrow>
                      (case env_asr_result env of
                         Inl m \<Rightarrow> Some m
                       | Inr result \<Rightarrow>
                          (case parse_funasr_result (env_render env) result of
                             Inl e \<Rightarrow> Some (env_describe env e)
                           | Inr segments \<Rightarrow>
                              (case env_md_error env of
                                 Some m \<Rightarrow> Some m
                               | None \<Rightarrow> env_move_error env))))) of
               Some message \<Rightarrow>
                 h_result entry = RESULT_FAIL \<and> h_lang entry = None
                 \<and> h_error entry = Some (take 50 message)
                 \<and> total_failed (progress_state w') = total_failed (progress_state w) + 1
                 \<and> total_completed (progress_state w') = total_completed (progress_state w)
             | None \<Rightarrow>
                 h_result entry = RESULT_OK \<and> h_lang entry = Some (env_language env)
                 \<and> h_error entry = None
                 \<and> total_completed (progress_state w') = total_completed (progress_state w) + 1
                 \<and> total_failed (progress_state w') = total_failed (progress_state w)))"
    if "\<not> is_processed video_path (processed_file w) \<and> files w video_path \<noteq> None"
  proof -
    from that obtain size_bytes where "files w video_path = Some size_bytes" by blast
    with that show ?thesis using process_video_outcome by blast
  qed
  have d: "(\<exists>w' t el. process_video env video_path w = Inr w'
          \<and> history (progress_state w') =
              history (progress_state w)
              @ [\<lparr>h_time = t, h_file = path_name video_path, h_result = RESULT_FAIL,
                  h_lang = None, h_error = Some (take 50 message), h_elapsed = el\<rparr>]
          \<and> total_failed (progress_state w') = total_failed (progress_state w) + 1
          \<and> total_completed (progress_state w') = total_completed (progress_state w)
          \<and> is_processed video_path (processed_file w'))"
    if "\<not> is_processed video_path (processed_file w) \<and> files w video_path \<noteq> None
       \<and> env_extract_error env = Some message"
  proof -
    from that obtain size_bytes where "files w video_path = Some size_bytes" by blast
    with that show ?thesis using process_video_extract_failure by blast
  qed
  from a b c d show ?thesis by blast
qed

theorem finish_records_outcome_witness:
  "total_failed (finish \<lparr>epoch = 7, hms = u ''10:00:00'', ymd_hms = []\<rparr> False [] 0 0
      (init \<lparr>epoch = 0, hms = [], ymd_hms = []\<rparr>)) = 1
   \<and> length (history (finish \<lparr>epoch = 7, hms = u ''10:00:00'', ymd_hms = []\<rparr> False [] 0 0
      (init \<lparr>epoch = 0, hms = [], ymd_hms = []\<rparr>))) = 1
   \<and> map h_error (history (progress_state
        (projr (process_video example_env (u ''/d/c.mp4'') example_world))))
       = [Some (u ''ffmpeg'')]
   \<and> map h_result (history (progress_state
        (projr (process_video example_env (u ''/d/c.mp4'') example_world))))
       = [RESULT_FAIL]
   \<and> map h_file (history (progress_state
        (projr (process_video example_env (u ''/d/c.mp4'') example_world))))
       = [u ''c.mp4'']
   \<and> total_failed (progress_state
        (projr (process_video example_env (u ''/d/c.mp4'') example_world))) = 1
   \<and> total_completed (progress_state
        (projr (process_video example_env (u ''/d/c.mp4'') example_world))) = 0
   \<and> map h_error (history (progress_state
        (projr (process_video (example_env\<lparr>env_extract_error := None,
                  env_asr_result := Inl (u ''model crashed'')\<rparr>)
           (u ''/d/c.mp4'') example_world))))
       = [Some (u ''model crashed'')]
   \<and> total_failed (progress_state
        (projr (process_video (example_env\<lparr>env_extract_error := None,
                  env_asr_result := Inl (u ''model crashed'')\<rparr>)
           (u ''/d/c.mp4'') example_world))) = 1
   \<and> map h_result (history (progress_state
        (projr (process_video (example_env\<lparr>env_extract_error := None\<rparr>)
           (u ''/d/c.mp4'') example_world))))
       = [RESULT_OK]
   \<and> total_completed (progress_state
        (projr (process_video (example_env\<lparr>env_extract_error := None\<rparr>)
           (u ''/d/c.mp4'') example_world))) = 1
   \<and> total_failed (progress_state
        (except_block example_env (u ''/d/c.mp4'')
           (u ''ffmpeg'', None,
            call example_env (\<lambda>c. update c (u ''extract'') (u ''c.mp4'') 0 0) example_world)))
       = 1"
proof -
  have n: "\<not> is_processed (u ''/d/c.mp4'') (processed_file example_world)"
    by (simp add: is_processed_def load_processed_def example_world_def u_def)
  have f: "files example_world (u ''/d/c.mp4'') \<noteq> None"
    by (simp add: example_world_def)
  have e: "env_extract_error example_env = Some (u ''ffmpeg'')"
    by (simp add: example_env_def)
  have h: "history (progress_state example_world) = []"
    "total_failed (progress_state example_world) = 0"
    "total_completed (progress_state example_world) = 0"
    by (simp_all add: example_world_def add_to_queue_def init_def write_status_def)
  have t: "take 50 (u ''ffmpeg'') = u ''ffmpeg''"
    "take 50 (u ''model crashed'') = u ''model crashed''"
    by (simp_all add: u_def)
  have p: "path_name (u ''/d/c.mp4'') = u ''c.mp4''"
    by (simp add: path_name_def u_def)
  have r: "try_block example_env (u ''/d/c.mp4'') (u ''c.mp4'') example_world =
           Inl (u ''ffmpeg'', None,
                call example_env (\<lambda>c. update c (u ''extract'') (u ''c.mp4'') 0 0) example_world)"
    by (simp add: try_block_def Let_def example_env_def)
  have first:
    "env_load_error example_env = None" "env_md_error example_env = None"
    "env_move_error example_env = None" "env_asr_result example_env = Inr (PList [])"
    "parse_funasr_result (env_render example_env) (PList []) = Inr []"
    by (simp_all add: example_env_def parse_funasr_result_def)
  have fin: "total_failed (finish \<lparr>epoch = 7, hms = u ''10:00:00'', ymd_hms = []\<rparr> False [] 0 0
      (init \<lparr>epoch = 0, hms = [], ymd_hms = []\<rparr>)) = 1
   \<and> length (history (finish \<lparr>epoch = 7, hms = u ''10:00:00'', ymd_hms = []\<rparr> False [] 0 0
      (init \<lparr>epoch = 0, hms = [], ymd_hms = []\<rparr>))) = 1
   \<and> total_failed (progress_state
        (except_block example_env (u ''/d/c.mp4'')
           (u ''ffmpeg'', None,
            call example_env (\<lambda>c. update c (u ''extract'') (u ''c.mp4'') 0 0) example_world)))
       = 1"
    using finish_records_outcome
    [where c = "\<lparr>epoch = 7, hms = u ''10:00:00'', ymd_hms = []\<rparr>" and lang = "[]"
       and segments = 0 and speakers = 0
       and pm = "init \<lparr>epoch = 0, hms = [], ymd_hms = []\<rparr>"
       and video_path = "u ''/d/c.mp4''" and env = example_env
       and fname = "u ''c.mp4''" and ?w0.0 = example_world
       and m = "u ''ffmpeg''" and sn = None
       and wr = "call example_env (\<lambda>c. update c (u ''extract'') (u ''c.mp4'') 0 0)
                   example_world"]
      r
    by (simp add: h init_def)
  have "\<exists>w' entry. process_video example_env (u ''/d/c.mp4'') example_world = Inr w'
      \<and> history (progress_state w') = [entry] \<and> h_file entry = u ''c.mp4''
      \<and> h_result entry = RESULT_FAIL \<and> h_error entry = Some (u ''ffmpeg'')
      \<and> total_failed (progress_state w') = 1 \<and> total_completed (progress_state w') = 0"
    using finish_records_outcome
      [where video_path = "u ''/d/c.mp4''" and w = example_world and env = example_env]
      n f e
    by (simp add: h t p) blast
  then have one: "map h_error (history (progress_state
        (projr (process_video example_env (u ''/d/c.mp4'') example_world))))
       = [Some (u ''ffmpeg'')]
   \<and> map h_result (history (progress_state
        (projr (process_video example_env (u ''/d/c.mp4'') example_world))))
       = [RESULT_FAIL]
   \<and> map h_file (history (progress_state
        (projr (process_video example_env (u ''/d/c.mp4'') example_world))))
       = [u ''c.mp4'']
   \<and> total_failed (progress_state
        (projr (process_video example_env (u ''/d/c.mp4'') example_world))) = 1
   \<and> total_completed (progress_state
        (projr (process_video example_env (u ''/d/c.mp4'') example_world))) = 0"
    by auto
  have "\<exists>w' entry. process_video (example_env\<lparr>env_extract_error := None,
                  env_asr_result := Inl (u ''model crashed'')\<rparr>)
           (u ''/d/c.mp4'') example_world = Inr w'
      \<and> history (progress_state w') = [entry]
      \<and> h_error entry = Some (u ''model crashed'')
      \<and> total_failed (progress_state w') = 1"
    using finish_records_outcome
      [where video_path = "u ''/d/c.mp4''" and w = example_world
         and env = "example_env\<lparr>env_extract_error := None,
                      env_asr_result := Inl (u ''model crashed'')\<rparr>"]
      n f
    by (simp add: h t p first) blast
  then have two: "map h_error (history (progress_state
        (projr (process_video (example_env\<lparr>env_extract_error := None,
                  env_asr_result := Inl (u ''model crashed'')\<rparr>)
           (u ''/d/c.mp4'') example_world))))
       = [Some (u ''model crashed'')]
   \<and> total_failed (progress_state
        (projr (process_video (example_env\<lparr>env_extract_error := None,
                  env_asr_result := Inl (u ''model crashed'')\<rparr>)
           (u ''/d/c.mp4'') example_world))) = 1"
    by auto
  have "\<exists>w' entry. process_video (example_env\<lparr>env_extract_error := None\<rparr>)
           (u ''/d/c.mp4'') example_world = Inr w'
      \<and> history (progress_state w') = [entry]
      \<and> h_result entry = RESULT_OK
      \<and> total_completed (progress_state w') = 1"
    using finish_records_outcome
      [where video_path = "u ''/d/c.mp4''" and w = example_world
         and env = "example_env\<lparr>env_extract_error := None\<rparr>"]
      n f
    by (simp add: h t p first) blast
  then have three: "map h_result (history (progress_state
        (projr (process_video (example_env\<lparr>env_extract_error := None\<rparr>)
           (u ''/d/c.mp4'') example_world))))
       = [RESULT_OK]
   \<and> total_completed (progress_state
        (projr (process_video (example_env\<lparr>env_extract_error := None\<rparr>)
           (u ''/d/c.mp4'') example_world))) = 1"
    by auto
  from fin one two three show ?thesis by simp
qed
end
